theory Spec2Isabelle
  imports Complex_Main "HOL-Library.Multiset"
begin

section \<open>Data model (src/types/index.ts)\<close>

text \<open>
  A JavaScript \<open>number\<close> that carries a time is modelled as a \<open>real\<close>: no NaN and no
  infinities. Arithmetic on times is exact, except in \<open>mergeProfiles\<close>, whose clock is
  meant to increase strictly by adding 1 and so depends on rounding: there every operation
  is rounded to a double (\<open>toDouble\<close> below). Node ids, frame ids, counters, line and column numbers
  are natural numbers. Optional fields are \<open>option\<close>s. Several interfaces of the source share
  field names (\<open>startTime\<close>, \<open>functionName\<close>, \<open>nodes\<close>, ...); the records keep the names and
  the theory qualifies them (\<open>CPUProfile.startTime\<close>, \<open>WorkerPerformanceData.startTime\<close>).
  The field \<open>id\<close> of a node is \<open>node_id\<close>, since \<open>id\<close> is the identity function of HOL.
\<close>

datatype MarkerCategory = network | render | compute | custom

record FunctionMarker =
  functionName :: string
  category :: MarkerCategory
  description :: "string option"
  color :: "string option"

record CallFrame =
  functionName :: string
  scriptId :: string
  url :: string
  lineNumber :: nat
  columnNumber :: nat

record ProfileNode =
  node_id :: nat
  callFrame :: CallFrame
  hitCount :: "nat option"
  marker :: "FunctionMarker option"

record CPUProfile =
  nodes :: "ProfileNode list"
  samples :: "nat list"
  timeDeltas :: "real list"
  startTime :: real
  endTime :: real

record WorkerPerformanceData =
  workerId :: string
  functionName :: string
  startTime :: real
  endTime :: real
  duration :: real
  memoryBefore :: "real option"
  memoryAfter :: "real option"
  callStack :: "string list option"
  marker :: "FunctionMarker option"

text \<open>
  The trace of the sampling profiler (\<open>ProfilerTrace\<close> in cpuprofile-generator.ts). Its arrays
  are \<open>any[]\<close> in the source; the fields below are the ones the generator reads. Every array
  of the trace may be missing, a sample may have no \<open>stackId\<close>, a stack no \<open>frameId\<close>.
\<close>

record TraceFrame =
  name :: "string option"
  resourceId :: "nat option"
  line :: "nat option"
  column :: "nat option"

record TraceStack =
  frameId :: "nat option"
  parentId :: "nat option"

record TraceSample =
  timestamp :: real
  stackId :: "nat option"

record ProfilerTrace =
  resources :: "string list option"
  frames :: "TraceFrame list option"
  stacks :: "TraceStack list option"
  samples :: "TraceSample list option"

text \<open>
  What a call can throw: \<open>Error msg\<close> is \<open>throw new Error(msg)\<close>; \<open>TypeError\<close> is the
  runtime's error on reading a property of \<open>undefined\<close>, \<open>RangeError\<close> its error on a call
  with more arguments than it accepts (the messages depend on the engine and are left out).
\<close>

datatype error = Error string | TypeError | RangeError

section \<open>The engine: argument limit and double rounding\<close>

text \<open>
  A spread call \<open>f(...xs)\<close> passes every element of \<open>xs\<close> as an argument of the call, and
  the engine raises \<open>RangeError\<close> when there are more of them than it accepts. The limit
  depends on the engine and on the stack that is left; it is a parameter of every function
  below that makes a spread call. The source itself makes calls with four arguments
  (\<open>generateFromSingleWorkerData(data, startTime, endTime, workerId)\<close>), so a limit is at
  least 4.
\<close>

typedef argumentLimit = "{n :: nat. 4 \<le> n}"
  by (rule exI [of _ 4]) simp

definition maxArguments :: "argumentLimit \<Rightarrow> nat" where
  "maxArguments argLimit = Rep_argumentLimit argLimit"

text \<open>
  Rounding of a real to the nearest double (IEEE 754 binary64, round to nearest, ties to
  even): \<open>binade x\<close> is the exponent \<open>e\<close> with \<open>2^e \<le> |x| < 2^(e+1)\<close>, found by halving or
  doubling; the spacing of the doubles around \<open>x\<close> is \<open>2^(e - 52)\<close>, and \<open>2^(-1074)\<close> for a
  subnormal. Overflow to \<open>Infinity\<close> (from \<open>2^1024\<close>) is outside the model.
\<close>

function binadeUp :: "real \<Rightarrow> nat" where
  "binadeUp x = (if 2 \<le> x then Suc (binadeUp (x / 2)) else 0)"
  by pat_completeness auto
termination
proof (relation "measure (\<lambda>x. nat \<lfloor>x\<rfloor>)")
  show "wf (measure (\<lambda>x::real. nat \<lfloor>x\<rfloor>))"
    by simp
next
  fix x :: real
  assume x: "2 \<le> x"
  then have "x / 2 + 1 \<le> x"
    by simp
  then have "\<lfloor>x / 2 + 1\<rfloor> \<le> \<lfloor>x\<rfloor>"
    by (rule floor_mono)
  then have "\<lfloor>x / 2\<rfloor> < \<lfloor>x\<rfloor>"
    by simp
  moreover from x have "0 < \<lfloor>x\<rfloor>"
    by simp
  ultimately show "(x / 2, x) \<in> measure (\<lambda>x. nat \<lfloor>x\<rfloor>)"
    by simp
qed

function binadeDown :: "real \<Rightarrow> nat" where
  "binadeDown x = (if 0 < x \<and> x < 1 then Suc (binadeDown (2 * x)) else 0)"
  by pat_completeness auto
termination
proof (relation "measure (\<lambda>x. nat \<lceil>1 / x\<rceil>)")
  show "wf (measure (\<lambda>x::real. nat \<lceil>1 / x\<rceil>))"
    by simp
next
  fix x :: real
  assume x: "0 < x \<and> x < 1"
  then have y: "1 < 1 / x"
    by simp
  then have c2: "2 \<le> \<lceil>1 / x\<rceil>"
    by (simp add: le_ceiling_iff)
  have le: "1 / x \<le> of_int \<lceil>1 / x\<rceil>"
    by (rule le_of_int_ceiling)
  from c2 have two: "(2::real) \<le> of_int \<lceil>1 / x\<rceil>"
    by linarith
  have half: "1 / (2 * x) = (1 / x) / 2"
    by simp
  have "y / 2 \<le> c - 1" if "y \<le> c" "2 \<le> c" for y c :: real
    using that by simp
  from this [OF le two] have "(1 / x) / 2 \<le> of_int \<lceil>1 / x\<rceil> - 1" .
  then have "1 / (2 * x) \<le> of_int (\<lceil>1 / x\<rceil> - 1)"
    by (simp only: half of_int_diff of_int_1)
  then have "\<lceil>1 / (2 * x)\<rceil> \<le> \<lceil>1 / x\<rceil> - 1"
    by (simp only: ceiling_le_iff)
  with c2 have "nat \<lceil>1 / (2 * x)\<rceil> < nat \<lceil>1 / x\<rceil>"
    unfolding zless_nat_conj by linarith
  then show "(2 * x, x) \<in> measure (\<lambda>x. nat \<lceil>1 / x\<rceil>)"
    by (simp only: in_measure)
qed

declare binadeUp.simps [simp del] binadeDown.simps [simp del]

definition binade :: "real \<Rightarrow> int" where
  "binade x = (if 1 \<le> \<bar>x\<bar> then int (binadeUp \<bar>x\<bar>) else - int (binadeDown \<bar>x\<bar>))"

definition pow2 :: "int \<Rightarrow> real" where
  "pow2 k = (if 0 \<le> k then 2 ^ nat k else 1 / 2 ^ nat (- k))"

definition roundTiesToEven :: "real \<Rightarrow> int" where
  "roundTiesToEven y =
     (let n = \<lfloor>y\<rfloor>; r = y - of_int n
      in if r < 1 / 2 then n else if 1 / 2 < r then n + 1 else if even n then n else n + 1)"

definition toDouble :: "real \<Rightarrow> real" where
  "toDouble x =
     (if x = 0 then 0
      else (let ulp = pow2 (max (binade x) (- 1022) - 52)
            in of_int (roundTiesToEven (x / ulp)) * ulp))"

section \<open>The generator (cpuprofile-generator.ts)\<close>

text \<open>
  The private fields of class \<open>CPUProfileGenerator\<close>, with their initialisers. A method
  that changes the fields takes the generator and returns the new one. The public entry
  points (\<open>generateFromTrace\<close>, \<open>generateFromSingleWorkerData\<close>) start with \<open>reset()\<close> and
  overwrite \<open>startTime\<close>, so what they return does not depend on the fields they find
  (lemmas \<open>generateFromTrace_fresh\<close> and \<open>generateFromSingleWorkerData_fresh\<close>); they
  return the profile only.
\<close>

record CPUProfileGenerator =
  nodes :: "ProfileNode list"
  samples :: "nat list"
  timeDeltas :: "real list"
  nodeMap :: "string \<rightharpoonup> nat"
  nodeIdCounter :: nat
  scriptIdCounter :: nat
  scriptMap :: "string \<rightharpoonup> string"
  startTime :: real

definition newCPUProfileGenerator :: CPUProfileGenerator where
  "newCPUProfileGenerator =
     \<lparr>CPUProfileGenerator.nodes = [], CPUProfileGenerator.samples = [],
      CPUProfileGenerator.timeDeltas = [], nodeMap = Map.empty, nodeIdCounter = 0,
      scriptIdCounter = 0, scriptMap = Map.empty, CPUProfileGenerator.startTime = 0\<rparr>"

text \<open>Decimal rendering of a counter inside a template literal.\<close>

definition digitChar :: "nat \<Rightarrow> char" where
  "digitChar d =
     (if d = 0 then CHR ''0'' else if d = 1 then CHR ''1'' else if d = 2 then CHR ''2''
      else if d = 3 then CHR ''3'' else if d = 4 then CHR ''4'' else if d = 5 then CHR ''5''
      else if d = 6 then CHR ''6'' else if d = 7 then CHR ''7'' else if d = 8 then CHR ''8''
      else CHR ''9'')"

fun toString :: "nat \<Rightarrow> string" where
  "toString n =
     (if n < 10 then [digitChar n] else toString (n div 10) @ [digitChar (n mod 10)])"

declare toString.simps [simp del]

definition reset :: "CPUProfileGenerator \<Rightarrow> CPUProfileGenerator" where
  "reset g =
     g\<lparr>CPUProfileGenerator.nodes := [], CPUProfileGenerator.samples := [],
       CPUProfileGenerator.timeDeltas := [], nodeMap := Map.empty, nodeIdCounter := 0,
       scriptIdCounter := 0, scriptMap := Map.empty\<rparr>"

definition getEmptyProfile :: "real \<Rightarrow> real \<Rightarrow> CPUProfile" where
  "getEmptyProfile st et =
     \<lparr>CPUProfile.nodes = [], CPUProfile.samples = [], CPUProfile.timeDeltas = [],
      CPUProfile.startTime = st, CPUProfile.endTime = et\<rparr>"

definition getScriptId :: "string \<Rightarrow> CPUProfileGenerator \<Rightarrow> string \<times> CPUProfileGenerator" where
  "getScriptId u g =
     (case scriptMap g u of
        Some sid \<Rightarrow> (sid, g)
      | None \<Rightarrow>
          (let sid = ''script-'' @ toString (scriptIdCounter g)
           in (sid, g\<lparr>scriptIdCounter := scriptIdCounter g + 1,
                      scriptMap := (scriptMap g)(u \<mapsto> sid)\<rparr>)))"

text \<open>
  \<open>getOrCreateNode\<close>: the node key is the string
  \<open>threadName::functionName::url::line::column\<close>. The registry of marked functions
  (function-marker.ts, a module-level map) is the parameter \<open>mf\<close>.
\<close>

definition traceFunctionName :: "TraceFrame \<Rightarrow> string" where
  "traceFunctionName fr = (case name fr of None \<Rightarrow> ''(anonymous)''
     | Some n \<Rightarrow> if n = [] then ''(anonymous)'' else n)"

definition traceUrl :: "TraceFrame \<Rightarrow> string \<Rightarrow> string" where
  "traceUrl fr threadName =
     (let baseUrl = (case resourceId fr of Some r \<Rightarrow> ''script-'' @ toString r | None \<Rightarrow> [])
      in if threadName = ''Main Thread''
         then ''main-thread://'' @ (if baseUrl = [] then ''inline'' else baseUrl)
         else threadName @ ''://'' @ (if baseUrl = [] then ''inline'' else baseUrl))"

definition orZero :: "nat option \<Rightarrow> nat" where
  "orZero v = (case v of None \<Rightarrow> 0 | Some n \<Rightarrow> n)"

definition traceNodeKey :: "TraceFrame \<Rightarrow> string \<Rightarrow> string" where
  "traceNodeKey fr threadName =
     threadName @ ''::'' @ traceFunctionName fr @ ''::'' @ traceUrl fr threadName @ ''::''
       @ toString (orZero (line fr)) @ ''::'' @ toString (orZero (column fr))"

definition getOrCreateNode ::
  "(string \<rightharpoonup> FunctionMarker) \<Rightarrow> TraceFrame \<Rightarrow> string \<Rightarrow> CPUProfileGenerator
     \<Rightarrow> nat \<times> CPUProfileGenerator" where
  "getOrCreateNode mf fr threadName g =
     (let fname = traceFunctionName fr;
          u = traceUrl fr threadName;
          nodeKey = traceNodeKey fr threadName
      in case nodeMap g nodeKey of
           Some nid \<Rightarrow> (nid, g)
         | None \<Rightarrow>
             (let nid = nodeIdCounter g;
                  g1 = g\<lparr>nodeIdCounter := nodeIdCounter g + 1\<rparr>;
                  (sid, g2) = getScriptId u g1;
                  node = \<lparr>node_id = nid,
                          callFrame = \<lparr>CallFrame.functionName =
                                          (if threadName = ''Main Thread'' then fname
                                           else ''['' @ threadName @ ''] '' @ fname),
                                        scriptId = sid, url = u,
                                        lineNumber = orZero (line fr),
                                        columnNumber = orZero (column fr)\<rparr>,
                          hitCount = Some 1,
                          ProfileNode.marker = mf fname\<rparr>
              in (nid, g2\<lparr>CPUProfileGenerator.nodes := CPUProfileGenerator.nodes g2 @ [node],
                          nodeMap := (nodeMap g2)(nodeKey \<mapsto> nid)\<rparr>)))"

text \<open>
  \<open>processTrace\<close>. The first loop interns every frame of the trace. The second loop reads
  \<open>stacks[sample.stackId]\<close> and \<open>frames[stack.frameId]\<close>; an index out of range gives
  \<open>undefined\<close>. An undefined stack or frame id skips the sample; an undefined frame reaches
  \<open>frame.name\<close> inside \<open>getOrCreateNode\<close>, which throws.
\<close>

fun internFrames ::
  "(string \<rightharpoonup> FunctionMarker) \<Rightarrow> string \<Rightarrow> TraceFrame list \<Rightarrow> CPUProfileGenerator
     \<Rightarrow> CPUProfileGenerator" where
  "internFrames mf threadName [] g = g"
| "internFrames mf threadName (fr # frs) g =
     internFrames mf threadName frs (snd (getOrCreateNode mf fr threadName g))"

definition sampleFrameId :: "TraceStack list \<Rightarrow> TraceSample \<Rightarrow> nat option" where
  "sampleFrameId sts s =
     (case stackId s of
        None \<Rightarrow> None
      | Some k \<Rightarrow> if k < length sts then frameId (sts ! k) else None)"

fun processSamples ::
  "(string \<rightharpoonup> FunctionMarker) \<Rightarrow> string \<Rightarrow> real \<Rightarrow> TraceFrame list \<Rightarrow> TraceStack list
     \<Rightarrow> TraceSample list \<Rightarrow> CPUProfileGenerator \<Rightarrow> error + CPUProfileGenerator" where
  "processSamples mf threadName st frs sts [] g = Inr g"
| "processSamples mf threadName st frs sts (s # ss) g =
     (case sampleFrameId sts s of
        None \<Rightarrow> processSamples mf threadName st frs sts ss g
      | Some fid \<Rightarrow>
          if fid < length frs then
            (let (nid, g1) = getOrCreateNode mf (frs ! fid) threadName g;
                 cumulativeTime = (timestamp s - st) * 1000
             in processSamples mf threadName st frs sts ss
                  (g1\<lparr>CPUProfileGenerator.samples := CPUProfileGenerator.samples g1 @ [nid],
                      CPUProfileGenerator.timeDeltas :=
                        CPUProfileGenerator.timeDeltas g1 @ [cumulativeTime]\<rparr>))
          else Inl TypeError)"

definition processTrace ::
  "(string \<rightharpoonup> FunctionMarker) \<Rightarrow> TraceFrame list option \<Rightarrow> TraceStack list \<Rightarrow> TraceSample list
     \<Rightarrow> real \<Rightarrow> string \<Rightarrow> CPUProfileGenerator \<Rightarrow> error + CPUProfileGenerator" where
  "processTrace mf frsOpt sts smps st threadName g =
     (let frs = (case frsOpt of None \<Rightarrow> [] | Some fs \<Rightarrow> fs)
      in processSamples mf threadName st frs sts smps (internFrames mf threadName frs g))"

definition generateFromTrace ::
  "(string \<rightharpoonup> FunctionMarker) \<Rightarrow> CPUProfileGenerator \<Rightarrow> ProfilerTrace option \<Rightarrow> real \<Rightarrow> real
     \<Rightarrow> string \<Rightarrow> error + CPUProfile" where
  "generateFromTrace mf g0 trace st et threadName =
     (let g = (reset g0)\<lparr>CPUProfileGenerator.startTime := st\<rparr>
      in case trace of
           None \<Rightarrow> Inr (getEmptyProfile st et)
         | Some tr \<Rightarrow>
             (case (ProfilerTrace.samples tr, stacks tr) of
                (Some smps, Some sts) \<Rightarrow>
                  (case processTrace mf (frames tr) sts smps st threadName g of
                     Inl e \<Rightarrow> Inl e
                   | Inr g' \<Rightarrow>
                       Inr \<lparr>CPUProfile.nodes = CPUProfileGenerator.nodes g',
                            CPUProfile.samples = CPUProfileGenerator.samples g',
                            CPUProfile.timeDeltas = CPUProfileGenerator.timeDeltas g',
                            CPUProfile.startTime = st, CPUProfile.endTime = et\<rparr>)
              | _ \<Rightarrow> Inr (getEmptyProfile st et)))"

text \<open>
  \<open>addWorkerPerformanceData\<close>: one telemetry record. The node key is built from the worker
  id and the function name only; a known key bumps the hit count of the first node carrying
  the mapped id, a new key appends a node. Either way one sample and one time delta are
  pushed.
\<close>

fun incrementHitCount :: "nat \<Rightarrow> ProfileNode list \<Rightarrow> ProfileNode list" where
  "incrementHitCount nid [] = []"
| "incrementHitCount nid (n # ns) =
     (if node_id n = nid
      then n\<lparr>hitCount := Some ((case hitCount n of None \<Rightarrow> 0 | Some h \<Rightarrow> h) + 1)\<rparr> # ns
      else n # incrementHitCount nid ns)"

definition workerNodeKey :: "string \<Rightarrow> string \<Rightarrow> string" where
  "workerNodeKey wid fname =
     (let threadName = ''Worker-'' @ wid;
          u = threadName @ ''://'' @ fname
      in threadName @ ''::'' @ fname @ ''::'' @ u @ ''::0::0'')"

definition addWorkerPerformanceData ::
  "WorkerPerformanceData \<Rightarrow> string \<Rightarrow> CPUProfileGenerator \<Rightarrow> CPUProfileGenerator" where
  "addWorkerPerformanceData d wid g =
     (let threadName = ''Worker-'' @ wid;
          fname = WorkerPerformanceData.functionName d;
          u = threadName @ ''://'' @ fname;
          nodeKey = workerNodeKey wid fname;
          (nid, g1) =
            (case nodeMap g nodeKey of
               Some k \<Rightarrow>
                 (k, g\<lparr>CPUProfileGenerator.nodes :=
                          incrementHitCount k (CPUProfileGenerator.nodes g)\<rparr>)
             | None \<Rightarrow>
                 (let k = nodeIdCounter g;
                      ga = g\<lparr>nodeIdCounter := nodeIdCounter g + 1\<rparr>;
                      (sid, gb) = getScriptId u ga;
                      node = \<lparr>node_id = k,
                              callFrame = \<lparr>CallFrame.functionName =
                                              ''['' @ threadName @ ''] '' @ fname,
                                            scriptId = sid, url = u,
                                            lineNumber = 0, columnNumber = 0\<rparr>,
                              hitCount = Some 1,
                              ProfileNode.marker = WorkerPerformanceData.marker d\<rparr>
                  in (k, gb\<lparr>CPUProfileGenerator.nodes := CPUProfileGenerator.nodes gb @ [node],
                            nodeMap := (nodeMap gb)(nodeKey \<mapsto> k)\<rparr>)));
          cumulativeTime =
            (WorkerPerformanceData.startTime d - CPUProfileGenerator.startTime g) * 1000
      in g1\<lparr>CPUProfileGenerator.samples := CPUProfileGenerator.samples g1 @ [nid],
             CPUProfileGenerator.timeDeltas :=
               CPUProfileGenerator.timeDeltas g1 @ [cumulativeTime]\<rparr>)"

text \<open>
  \<open>normalizeTimeDeltas\<close>: one pass over the array with the running value \<open>lastTime\<close>,
  which starts at 0. The array is rewritten in place; the loop below returns the new
  contents.
\<close>

fun normalizeLoop :: "real \<Rightarrow> real list \<Rightarrow> real list" where
  "normalizeLoop lastTime [] = []"
| "normalizeLoop lastTime (t # ts) =
     (let t' = (if t < lastTime then lastTime + 1 else t)
      in t' # normalizeLoop t' ts)"

definition normalizeTimeDeltas :: "CPUProfileGenerator \<Rightarrow> CPUProfileGenerator" where
  "normalizeTimeDeltas g =
     (if length (CPUProfileGenerator.timeDeltas g) = 0 then g
      else g\<lparr>CPUProfileGenerator.timeDeltas :=
                normalizeLoop 0 (CPUProfileGenerator.timeDeltas g)\<rparr>)"

text \<open>
  \<open>generateFromSingleWorkerData\<close>. \<open>workerData.sort(...)\<close> sorts the caller's array in place
  (a stable sort on \<open>startTime\<close>) and returns that same array. The model returns the profile
  together with the contents of the caller's array after the call.
\<close>

definition generateFromSingleWorkerData ::
  "CPUProfileGenerator \<Rightarrow> WorkerPerformanceData list \<Rightarrow> real \<Rightarrow> real \<Rightarrow> string
     \<Rightarrow> CPUProfile \<times> WorkerPerformanceData list" where
  "generateFromSingleWorkerData g0 workerData st et wid =
     (let g = (reset g0)\<lparr>CPUProfileGenerator.startTime := st\<rparr>;
          sortedData = sort_key WorkerPerformanceData.startTime workerData;
          g1 = fold (\<lambda>d acc. addWorkerPerformanceData d wid acc) sortedData g;
          g2 = normalizeTimeDeltas g1
      in (\<lparr>CPUProfile.nodes = CPUProfileGenerator.nodes g2,
           CPUProfile.samples = CPUProfileGenerator.samples g2,
           CPUProfile.timeDeltas = CPUProfileGenerator.timeDeltas g2,
           CPUProfile.startTime = st, CPUProfile.endTime = et\<rparr>,
          sortedData))"

text \<open>
  \<open>mergeProfiles\<close>. \<open>Math.min(...profiles.map(..))\<close> and \<open>Math.max(...)\<close> are spread
  calls with one argument per profile: they are only reached with at least one argument, and
  raise \<open>RangeError\<close> beyond the engine's limit. The sort works on a copy
  (\<open>[...profiles]\<close>). \<open>nodeMapping.get(x) || x\<close> and \<open>profile.timeDeltas[i] || 0\<close> fall back
  when the lookup is undefined or zero. The arithmetic of the time offset, of the adjusted
  delta and of \<open>cumulativeTime += 1\<close> is rounded to doubles.
\<close>

definition mathMin :: "real \<Rightarrow> real list \<Rightarrow> real" where
  "mathMin x xs = fold min xs x"

definition mathMax :: "real \<Rightarrow> real list \<Rightarrow> real" where
  "mathMax x xs = fold max xs x"

definition buildNodeMapping :: "nat \<Rightarrow> ProfileNode list \<Rightarrow> (nat \<rightharpoonup> nat)" where
  "buildNodeMapping nodeIdOffset ns =
     fold (\<lambda>n m. m(node_id n \<mapsto> nodeIdOffset + node_id n)) ns Map.empty"

definition mappedNodeId :: "(nat \<rightharpoonup> nat) \<Rightarrow> nat \<Rightarrow> nat" where
  "mappedNodeId nodeMapping originalNodeId =
     (case nodeMapping originalNodeId of
        None \<Rightarrow> originalNodeId
      | Some newId \<Rightarrow> if newId = 0 then originalNodeId else newId)"

definition originalDeltaAt :: "real list \<Rightarrow> nat \<Rightarrow> real" where
  "originalDeltaAt tds i = (if i < length tds then tds ! i else 0)"

definition mergeSample ::
  "(nat \<rightharpoonup> nat) \<Rightarrow> real \<Rightarrow> CPUProfile \<Rightarrow> nat \<Rightarrow> CPUProfile \<times> real \<Rightarrow> CPUProfile \<times> real" where
  "mergeSample nodeMapping timeOffset profile i acc =
     (let (merged, cumulativeTime) = acc;
          originalNodeId = CPUProfile.samples profile ! i;
          mapped = mappedNodeId nodeMapping originalNodeId;
          originalDelta = originalDeltaAt (CPUProfile.timeDeltas profile) i;
          adjustedDelta = toDouble (timeOffset + originalDelta);
          cumulativeTime' =
            (if adjustedDelta > cumulativeTime then adjustedDelta
             else toDouble (cumulativeTime + 1))
      in (merged\<lparr>CPUProfile.samples := CPUProfile.samples merged @ [mapped],
                 CPUProfile.timeDeltas := CPUProfile.timeDeltas merged @ [cumulativeTime']\<rparr>,
          cumulativeTime'))"

definition mergeOne ::
  "CPUProfile \<Rightarrow> CPUProfile \<times> nat \<times> real \<Rightarrow> CPUProfile \<times> nat \<times> real" where
  "mergeOne profile acc =
     (let (merged, nodeIdOffset, cumulativeTime) = acc;
          timeOffset =
            toDouble (toDouble (CPUProfile.startTime profile - CPUProfile.startTime merged)
                        * 1000);
          nodeMapping = buildNodeMapping nodeIdOffset (CPUProfile.nodes profile);
          merged1 = merged\<lparr>CPUProfile.nodes := CPUProfile.nodes merged @
                       map (\<lambda>n. n\<lparr>node_id := nodeIdOffset + node_id n\<rparr>)
                         (CPUProfile.nodes profile)\<rparr>;
          (merged2, cumulativeTime') =
            fold (mergeSample nodeMapping timeOffset profile)
              [0 ..< length (CPUProfile.samples profile)] (merged1, cumulativeTime)
      in (merged2, nodeIdOffset + length (CPUProfile.nodes profile), cumulativeTime'))"

definition mergeProfiles :: "argumentLimit \<Rightarrow> CPUProfile list \<Rightarrow> error + CPUProfile" where
  "mergeProfiles argLimit profiles =
     (case profiles of
        [] \<Rightarrow> Inl (Error ''Cannot merge empty profiles'')
      | p # ps \<Rightarrow>
          if length profiles > maxArguments argLimit then Inl RangeError
          else
          (let merged = \<lparr>CPUProfile.nodes = [], CPUProfile.samples = [],
                         CPUProfile.timeDeltas = [],
                         CPUProfile.startTime =
                           mathMin (CPUProfile.startTime p) (map CPUProfile.startTime ps),
                         CPUProfile.endTime =
                           mathMax (CPUProfile.endTime p) (map CPUProfile.endTime ps)\<rparr>;
               sortedProfiles = sort_key CPUProfile.startTime profiles
           in Inr (fst (fold mergeOne sortedProfiles (merged, 0, 0)))))"

text \<open>
  \<open>generateFromWorkerData\<close>: the records are grouped by \<open>workerId || 'unknown'\<close> in a
  \<open>Map\<close>, whose iteration order is the order of first insertion; the groups are an
  association list in that order.
\<close>

definition groupKey :: "WorkerPerformanceData \<Rightarrow> string" where
  "groupKey d = (if workerId d = [] then ''unknown'' else workerId d)"

fun pushToGroup ::
  "string \<Rightarrow> WorkerPerformanceData \<Rightarrow> (string \<times> WorkerPerformanceData list) list
     \<Rightarrow> (string \<times> WorkerPerformanceData list) list" where
  "pushToGroup k d [] = [(k, [d])]"
| "pushToGroup k d ((k', ds) # rest) =
     (if k' = k then (k', ds @ [d]) # rest else (k', ds) # pushToGroup k d rest)"

definition groupByWorkerId ::
  "WorkerPerformanceData list \<Rightarrow> (string \<times> WorkerPerformanceData list) list" where
  "groupByWorkerId workerData = fold (\<lambda>d groups. pushToGroup (groupKey d) d groups) workerData []"

definition generateFromWorkerData ::
  "argumentLimit \<Rightarrow> CPUProfileGenerator \<Rightarrow> WorkerPerformanceData list \<Rightarrow> real \<Rightarrow> real
     \<Rightarrow> error + CPUProfile" where
  "generateFromWorkerData argLimit g workerData st et =
     (let workerGroups = groupByWorkerId workerData
      in case workerGroups of
           [(wid, ds)] \<Rightarrow> Inr (fst (generateFromSingleWorkerData g ds st et wid))
         | _ \<Rightarrow>
             (let profiles =
                    map (\<lambda>(wid, ds). fst (generateFromSingleWorkerData g ds st et wid))
                      workerGroups
              in case profiles of
                   [] \<Rightarrow> Inr (getEmptyProfile st et)
                 | [p] \<Rightarrow> Inr p
                 | _ \<Rightarrow> mergeProfiles argLimit profiles))"

section \<open>The orchestrator (performance-monitor.ts)\<close>

text \<open>
  \<open>PerformanceMonitor.generateProfile\<close>. \<open>trace\<close> is what \<open>this.profiler.stop()\<close> resolves
  to (\<open>MainThreadProfiler.stop\<close> catches every error and returns the trace or null);
  \<open>endTime\<close> is the reading of \<open>performance.now()\<close>. The result is \<open>None\<close> for null.
\<close>

record PerformanceMonitor =
  generator :: CPUProfileGenerator
  startTime :: real
  workerPerformanceData :: "WorkerPerformanceData list"
  mainThreadInstrumentationData :: "WorkerPerformanceData list"

definition generateProfile ::
  "argumentLimit \<Rightarrow> (string \<rightharpoonup> FunctionMarker) \<Rightarrow> PerformanceMonitor \<Rightarrow> ProfilerTrace option
     \<Rightarrow> real \<Rightarrow> error + CPUProfile option" where
  "generateProfile argLimit mf this trace et =
     (case (case trace of
              None \<Rightarrow> Inr []
            | Some tr \<Rightarrow>
                (case generateFromTrace mf (generator this) (Some tr)
                        (PerformanceMonitor.startTime this) et ''Main Thread'' of
                   Inl e \<Rightarrow> Inl e
                 | Inr mainProfile \<Rightarrow> Inr [mainProfile])) of
        Inl e \<Rightarrow> Inl e
      | Inr profiles1 \<Rightarrow>
          (case (if length (workerPerformanceData this) > 0
                 then (case generateFromWorkerData argLimit (generator this)
                              (workerPerformanceData this)
                              (PerformanceMonitor.startTime this) et of
                         Inl e \<Rightarrow> Inl e
                       | Inr workerProfile \<Rightarrow>
                           if length (CPUProfile.nodes workerProfile) > 0
                              \<or> length (CPUProfile.samples workerProfile) > 0
                           then Inr (profiles1 @ [workerProfile])
                           else Inr profiles1)
                 else Inr profiles1) of
             Inl e \<Rightarrow> Inl e
           | Inr profiles \<Rightarrow>
               (case profiles of
                  [] \<Rightarrow> Inr None
                | [p] \<Rightarrow> Inr (Some p)
                | _ \<Rightarrow> (case mergeProfiles argLimit profiles of
                          Inl e \<Rightarrow> Inl e
                        | Inr m \<Rightarrow> Inr (Some m)))))"

section \<open>The flame-chart exporter (generateSpeedscopeFormat)\<close>

text \<open>
  The output format. An event type is \<open>'O'\<close> or \<open>'C'\<close> in the source (\<open>OpenEvent\<close> and
  \<open>CloseEvent\<close> here). A profile of the file is either \<open>sampled\<close> (with \<open>samples\<close> and
  \<open>weights\<close>) or \<open>evented\<close> (with \<open>events\<close>); the fields a profile does not have are
  \<open>None\<close>. A JavaScript \<open>Map\<close> with string keys that the code iterates is an association
  list in insertion order. The field \<open>file\<close> of a frame is \<open>frameFile\<close> (\<open>file\<close> is a
  keyword of Isabelle), the field \<open>at\<close> of an event is \<open>event_at\<close> (\<open>at\<close> is notation of
  the library).
\<close>

datatype EventType = OpenEvent | CloseEvent

record SpeedscopeEvent =
  event_at :: real
  frame :: nat
  type :: EventType

record SpeedscopeFrame =
  name :: string
  frameFile :: string
  line :: nat
  col :: nat

datatype ProfileType = sampled | evented

record SpeedscopeProfile =
  type :: ProfileType
  name :: string
  unit :: string
  startValue :: real
  endValue :: real
  samples :: "nat list option"
  weights :: "real list option"
  events :: "SpeedscopeEvent list option"

record SpeedscopeFile =
  schema :: string
  shared_frames :: "SpeedscopeFrame list"
  profiles :: "SpeedscopeProfile list"
  name :: string

fun mapSet :: "'k \<Rightarrow> 'v \<Rightarrow> ('k \<times> 'v) list \<Rightarrow> ('k \<times> 'v) list" where
  "mapSet k v [] = [(k, v)]"
| "mapSet k v ((k', v') # m) =
     (if k' = k then (k, v) # m else (k', v') # mapSet k v m)"

definition startsWith :: "string \<Rightarrow> string \<Rightarrow> bool" where
  "startsWith s p = (take (length p) s = p)"

fun stringIncludes :: "string \<Rightarrow> string \<Rightarrow> bool" where
  "stringIncludes [] sub = (sub = [])"
| "stringIncludes (c # cs) sub = (startsWith (c # cs) sub \<or> stringIncludes cs sub)"

text \<open>The time base: the earliest \<open>startTime\<close> of any raw record, if earlier than \<open>baseStartTime\<close>.
  \<open>minStartTime = Infinity\<close> is \<open>None\<close>.\<close>

definition minStartTimeStep :: "WorkerPerformanceData \<Rightarrow> real option \<Rightarrow> real option" where
  "minStartTimeStep d m =
     (case m of
        None \<Rightarrow> Some (WorkerPerformanceData.startTime d)
      | Some v \<Rightarrow> if WorkerPerformanceData.startTime d < v
                  then Some (WorkerPerformanceData.startTime d) else Some v)"

definition actualStartTimeOf ::
  "(string \<times> WorkerPerformanceData list) list option \<Rightarrow> real \<Rightarrow> real" where
  "actualStartTimeOf workerGroups baseStartTime =
     (case workerGroups of
        None \<Rightarrow> baseStartTime
      | Some groups \<Rightarrow>
          if length groups > 0 then
            (case fold (\<lambda>dataArray m. fold minStartTimeStep dataArray m) (map snd groups) None of
               Some minStartTime \<Rightarrow>
                 if minStartTime < baseStartTime then minStartTime else baseStartTime
             | None \<Rightarrow> baseStartTime)
          else baseStartTime)"

text \<open>The shared frame table and its key map.\<close>

definition frameKey :: "ProfileNode \<Rightarrow> string" where
  "frameKey node =
     CallFrame.functionName (callFrame node) @ ''::'' @ url (callFrame node) @ ''::''
       @ toString (lineNumber (callFrame node)) @ ''::''
       @ toString (columnNumber (callFrame node))"

definition frameOfNode :: "ProfileNode \<Rightarrow> SpeedscopeFrame" where
  "frameOfNode node =
     \<lparr>SpeedscopeFrame.name = CallFrame.functionName (callFrame node),
      frameFile = (if url (callFrame node) = [] then ''(unknown)'' else url (callFrame node)),
      SpeedscopeFrame.line = lineNumber (callFrame node),
      col = columnNumber (callFrame node)\<rparr>"

definition extractFrame ::
  "ProfileNode \<Rightarrow> (string \<times> nat) list \<times> SpeedscopeFrame list \<times> nat
     \<Rightarrow> (string \<times> nat) list \<times> SpeedscopeFrame list \<times> nat" where
  "extractFrame node acc =
     (let (frameMap, frs, fid) = acc; key = frameKey node
      in if map_of frameMap key = None
         then (frameMap @ [(key, fid)], frs @ [frameOfNode node], fid + 1)
         else (frameMap, frs, fid))"

text \<open>The main thread's \<open>sampled\<close> profile.\<close>

definition mainThreadMap :: "(string \<times> nat) list \<Rightarrow> ProfileNode list \<Rightarrow> (nat \<rightharpoonup> nat)" where
  "mainThreadMap frameMap ns =
     fold (\<lambda>node m. m(node_id node := map_of frameMap (frameKey node))) ns Map.empty"

definition mainSampleStep ::
  "(nat \<rightharpoonup> nat) \<Rightarrow> CPUProfile \<Rightarrow> nat \<Rightarrow> nat list \<times> real list \<times> real
     \<Rightarrow> nat list \<times> real list \<times> real" where
  "mainSampleStep threadMap p i acc =
     (let (smps, wts, lastTime) = acc
      in case threadMap (CPUProfile.samples p ! i) of
           None \<Rightarrow> (smps, wts, lastTime)
         | Some fid \<Rightarrow>
             (let currentTime = originalDeltaAt (CPUProfile.timeDeltas p) i;
                  weight = currentTime - lastTime
              in (smps @ [fid], wts @ [max weight 1], currentTime)))"

definition emptySampledProfile :: "real \<Rightarrow> SpeedscopeProfile" where
  "emptySampledProfile ev =
     \<lparr>SpeedscopeProfile.type = sampled, SpeedscopeProfile.name = ''Main Thread'',
      unit = ''microseconds'', startValue = 0, endValue = ev,
      SpeedscopeProfile.samples = Some [], weights = Some [], events = None\<rparr>"

definition orElse :: "real \<Rightarrow> real \<Rightarrow> real" where
  "orElse v dflt = (if v = 0 then dflt else v)"

definition mainThreadProfiles ::
  "(string \<times> nat) list \<Rightarrow> CPUProfile option \<Rightarrow> real \<Rightarrow> SpeedscopeProfile list" where
  "mainThreadProfiles frameMap mainThreadProfile baseStartTime =
     (case mainThreadProfile of
        None \<Rightarrow> []
      | Some p \<Rightarrow>
          if length (CPUProfile.samples p) > 0 then
            (let threadMap = mainThreadMap frameMap (CPUProfile.nodes p);
                 (smps, wts, l) =
                   fold (mainSampleStep threadMap p) [0 ..< length (CPUProfile.samples p)]
                     ([], [], 0)
             in if length smps > 0 \<and> length wts > 0 \<and> length smps = length wts then
                  (let lastTime =
                         (if length (CPUProfile.timeDeltas p) > 0
                          then CPUProfile.timeDeltas p ! (length (CPUProfile.timeDeltas p) - 1)
                          else (CPUProfile.endTime p - CPUProfile.startTime p) * 1000)
                   in [\<lparr>SpeedscopeProfile.type = sampled,
                         SpeedscopeProfile.name = ''Main Thread'',
                         unit = ''microseconds'', startValue = 0, endValue = max lastTime 1,
                         SpeedscopeProfile.samples = Some smps, weights = Some wts,
                         events = None\<rparr>])
                else [])
          else
            (let et = orElse (CPUProfile.endTime p) (baseStartTime + 1000);
                 st = orElse (CPUProfile.startTime p) baseStartTime
             in [emptySampledProfile (max ((et - st) * 1000) 1000)]))"

text \<open>One worker: its map from node ids to frame ids.\<close>

definition findIncluding :: "(string \<times> nat) list \<Rightarrow> string \<Rightarrow> string \<Rightarrow> nat option" where
  "findIncluding frameMap fname u =
     map_option snd (find (\<lambda>(k, v). stringIncludes k fname \<and> stringIncludes k u) frameMap)"

definition workerThreadMapStep ::
  "ProfileNode \<Rightarrow> (nat \<rightharpoonup> nat) \<times> (string \<times> nat) list \<times> SpeedscopeFrame list
     \<Rightarrow> (nat \<rightharpoonup> nat) \<times> (string \<times> nat) list \<times> SpeedscopeFrame list" where
  "workerThreadMapStep node acc =
     (let (threadMap, frameMap, frs) = acc;
          key = frameKey node;
          frameIdx =
            (case map_of frameMap key of
               Some v \<Rightarrow> Some v
             | None \<Rightarrow>
                 findIncluding frameMap (CallFrame.functionName (callFrame node))
                   (url (callFrame node)))
      in case frameIdx of
           Some v \<Rightarrow> (threadMap(node_id node \<mapsto> v), frameMap, frs)
         | None \<Rightarrow>
             (let v = length frs
              in (threadMap(node_id node \<mapsto> v), mapSet key v frameMap,
                  frs @ [frameOfNode node])))"

text \<open>The evented path: the map from function names to frame ids, then one step per raw
  record.\<close>

definition stripPrefix :: "string \<Rightarrow> string \<Rightarrow> string" where
  "stripPrefix threadPrefix fname =
     (if startsWith fname threadPrefix then drop (length threadPrefix) fname else fname)"

definition functionNamesFromThreadMap ::
  "string \<Rightarrow> (nat \<rightharpoonup> nat) \<Rightarrow> ProfileNode list \<Rightarrow> (string \<times> nat) list" where
  "functionNamesFromThreadMap threadPrefix threadMap ns =
     fold (\<lambda>node m.
             case threadMap (node_id node) of
               None \<Rightarrow> m
             | Some frameIdx \<Rightarrow>
                 (let originalFunctionName =
                        stripPrefix threadPrefix (CallFrame.functionName (callFrame node))
                  in if map_of m originalFunctionName = None
                     then m @ [(originalFunctionName, frameIdx)] else m))
       ns []"

definition functionNamesFromFrameMap ::
  "string \<Rightarrow> (string \<times> nat) list \<Rightarrow> ProfileNode list \<Rightarrow> (string \<times> nat) list" where
  "functionNamesFromFrameMap threadPrefix frameMap ns =
     fold (\<lambda>node m.
             case map_of frameMap (frameKey node) of
               None \<Rightarrow> m
             | Some frameIdx \<Rightarrow>
                 (let originalFunctionName =
                        stripPrefix threadPrefix (CallFrame.functionName (callFrame node))
                  in if map_of m originalFunctionName = None
                     then m @ [(originalFunctionName, frameIdx)] else m))
       ns []"

fun findViaSamples ::
  "string \<Rightarrow> (nat \<rightharpoonup> nat) \<Rightarrow> ProfileNode list \<Rightarrow> string \<Rightarrow> nat list \<Rightarrow> nat option" where
  "findViaSamples threadPrefix threadMap ns fname [] = None"
| "findViaSamples threadPrefix threadMap ns fname (nodeId # rest) =
     (case find (\<lambda>n. node_id n = nodeId) ns of
        None \<Rightarrow> findViaSamples threadPrefix threadMap ns fname rest
      | Some node \<Rightarrow>
          if stripPrefix threadPrefix (CallFrame.functionName (callFrame node)) = fname
          then (case threadMap nodeId of
                  Some fid \<Rightarrow> Some fid
                | None \<Rightarrow> findViaSamples threadPrefix threadMap ns fname rest)
          else findViaSamples threadPrefix threadMap ns fname rest)"

text \<open>The block that pushes the open and close events of one record; the source has it
  twice, once for a frame id found and once for a frame just created.\<close>

definition pushEvents ::
  "real \<Rightarrow> WorkerPerformanceData \<Rightarrow> nat \<Rightarrow> SpeedscopeEvent list \<Rightarrow> SpeedscopeEvent list" where
  "pushEvents actualStartTime d fid eventList =
     (let startAt = (WorkerPerformanceData.startTime d - actualStartTime) * 1000;
          endAt = (WorkerPerformanceData.endTime d - actualStartTime) * 1000
      in if startAt \<ge> 0 \<and> endAt \<ge> startAt
         then eventList @ [\<lparr>event_at = startAt, frame = fid, SpeedscopeEvent.type = OpenEvent\<rparr>,
                           \<lparr>event_at = endAt, frame = fid, SpeedscopeEvent.type = CloseEvent\<rparr>]
         else eventList)"

definition workerDataStep ::
  "string \<Rightarrow> string \<Rightarrow> (nat \<rightharpoonup> nat) \<Rightarrow> CPUProfile \<Rightarrow> real \<Rightarrow> WorkerPerformanceData
     \<Rightarrow> (string \<times> nat) list \<times> SpeedscopeFrame list \<times> (string \<times> nat) list \<times> SpeedscopeEvent list
     \<Rightarrow> (string \<times> nat) list \<times> SpeedscopeFrame list \<times> (string \<times> nat) list \<times> SpeedscopeEvent list"
  where
  "workerDataStep wid threadPrefix threadMap profile actualStartTime d acc =
     (let (frameMap, frs, functionNameToFrameId, eventList) = acc;
          fname = WorkerPerformanceData.functionName d;
          frameId0 = map_of functionNameToFrameId fname;
          viaSamples =
            (if frameId0 = None \<and> length (CPUProfile.samples profile) > 0
             then findViaSamples threadPrefix threadMap (CPUProfile.nodes profile) fname
                    (CPUProfile.samples profile)
             else None)
      in case (case frameId0 of Some v \<Rightarrow> Some v | None \<Rightarrow> viaSamples) of
           Some fid \<Rightarrow>
             (frameMap, frs,
              (if frameId0 = None then mapSet fname fid functionNameToFrameId
               else functionNameToFrameId),
              pushEvents actualStartTime d fid eventList)
         | None \<Rightarrow>
             (let newFrameId = length frs;
                  newFrame = \<lparr>SpeedscopeFrame.name = fname,
                              frameFile = ''worker-'' @ wid @ ''://'' @ fname,
                              SpeedscopeFrame.line = 0, col = 0\<rparr>;
                  newKey = fname @ ''::worker-'' @ wid @ ''://'' @ fname @ ''::0::0''
              in (mapSet newKey newFrameId frameMap, frs @ [newFrame],
                  mapSet fname newFrameId functionNameToFrameId,
                  pushEvents actualStartTime d newFrameId eventList)))"

text \<open>The degraded path, from the samples of the worker's profile.\<close>

definition degradedStep ::
  "(nat \<rightharpoonup> nat) \<Rightarrow> CPUProfile \<Rightarrow> nat \<Rightarrow> (real \<times> nat \<times> EventType) list
     \<Rightarrow> (real \<times> nat \<times> EventType) list" where
  "degradedStep threadMap p i sortedEvents =
     (let nodeId = CPUProfile.samples p ! i
      in case threadMap nodeId of
           None \<Rightarrow> sortedEvents
         | Some fid \<Rightarrow>
             (let time = originalDeltaAt (CPUProfile.timeDeltas p) i
              in sortedEvents @ [(time, nodeId, OpenEvent), (time + 100, nodeId, CloseEvent)]))"

definition degradedEvents :: "(nat \<rightharpoonup> nat) \<Rightarrow> CPUProfile \<Rightarrow> SpeedscopeEvent list" where
  "degradedEvents threadMap p =
     (let sortedEvents =
            sort_key fst
              (fold (degradedStep threadMap p) [0 ..< length (CPUProfile.samples p)] [])
      in concat (map (\<lambda>(time, nodeId, ty).
                        case threadMap nodeId of
                          None \<Rightarrow> []
                        | Some fid \<Rightarrow> [\<lparr>event_at = time, frame = fid, SpeedscopeEvent.type = ty\<rparr>])
                   sortedEvents))"

text \<open>
  The evented path of one worker (raw records available): build the map from function names
  to frame ids, run one step per record, sort the events by time (a stable sort), then
  \<open>events.push(...eventList)\<close>, a spread call with one argument per event.
\<close>

definition eventedEvents ::
  "argumentLimit \<Rightarrow> string \<Rightarrow> string \<Rightarrow> (nat \<rightharpoonup> nat) \<Rightarrow> CPUProfile \<Rightarrow> real
     \<Rightarrow> WorkerPerformanceData list \<Rightarrow> (string \<times> nat) list \<times> SpeedscopeFrame list
     \<Rightarrow> error + (string \<times> nat) list \<times> SpeedscopeFrame list \<times> SpeedscopeEvent list" where
  "eventedEvents argLimit wid threadName threadMap profile actualStartTime workerData acc =
     (let (frameMap, frs) = acc;
          threadPrefix = ''['' @ threadName @ ''] '';
          fn0 = functionNamesFromThreadMap threadPrefix threadMap (CPUProfile.nodes profile);
          fn1 = (if length fn0 = 0
                 then functionNamesFromFrameMap threadPrefix frameMap (CPUProfile.nodes profile)
                 else fn0);
          (frameMap', frs', fn2, eventList) =
            fold (workerDataStep wid threadPrefix threadMap profile actualStartTime) workerData
              (frameMap, frs, fn1, [])
      in if length eventList > maxArguments argLimit then Inl RangeError
         else Inr (frameMap', frs', sort_key event_at eventList))"

definition workerIndexOf :: "string \<Rightarrow> string" where
  "workerIndexOf wid =
     (if startsWith wid ''worker-'' then drop (length ''worker-'') wid else wid)"

text \<open>
  One worker of \<open>workerProfiles\<close>. When the worker has events, \<open>Math.min(...times)\<close> and
  \<open>Math.max(...times)\<close> are spread calls with one argument per event.
\<close>

definition workerProfileStep ::
  "argumentLimit \<Rightarrow> (string \<times> WorkerPerformanceData list) list option \<Rightarrow> real
     \<Rightarrow> string \<times> CPUProfile
     \<Rightarrow> (string \<times> nat) list \<times> SpeedscopeFrame list \<times> SpeedscopeProfile list
     \<Rightarrow> error + (string \<times> nat) list \<times> SpeedscopeFrame list \<times> SpeedscopeProfile list" where
  "workerProfileStep argLimit workerGroups actualStartTime entry acc =
     (let (wid, profile) = entry;
          (frameMap, frs, profs) = acc;
          threadName = ''web-worker-'' @ workerIndexOf wid;
          (threadMap, frameMap1, frs1) =
            fold workerThreadMapStep (CPUProfile.nodes profile) (Map.empty, frameMap, frs)
      in case (case (case workerGroups of None \<Rightarrow> None | Some groups \<Rightarrow> map_of groups wid) of
                 Some workerData \<Rightarrow>
                   eventedEvents argLimit wid threadName threadMap profile actualStartTime workerData
                     (frameMap1, frs1)
               | None \<Rightarrow> Inr (frameMap1, frs1, degradedEvents threadMap profile)) of
           Inl e \<Rightarrow> Inl e
         | Inr (frameMap2, frs2, evs) \<Rightarrow>
             (case evs of
                [] \<Rightarrow> Inr (frameMap2, frs2, profs)
              | e # es \<Rightarrow>
                  if length evs > maxArguments argLimit then Inl RangeError
                  else
                    Inr (frameMap2, frs2,
                         profs @ [\<lparr>SpeedscopeProfile.type = evented,
                                    SpeedscopeProfile.name = threadName,
                                    unit = ''microseconds'',
                                    startValue = mathMin (event_at e) (map event_at es),
                                    endValue = mathMax (event_at e) (map event_at es),
                                    SpeedscopeProfile.samples = None, weights = None,
                                    events = Some evs\<rparr>])))"

text \<open>The loop over \<open>workerProfiles\<close>; an error of one worker ends it.\<close>

fun workerProfilesLoop ::
  "argumentLimit \<Rightarrow> (string \<times> WorkerPerformanceData list) list option \<Rightarrow> real
     \<Rightarrow> (string \<times> CPUProfile) list
     \<Rightarrow> (string \<times> nat) list \<times> SpeedscopeFrame list \<times> SpeedscopeProfile list
     \<Rightarrow> error + (string \<times> nat) list \<times> SpeedscopeFrame list \<times> SpeedscopeProfile list" where
  "workerProfilesLoop argLimit workerGroups actualStartTime [] acc = Inr acc"
| "workerProfilesLoop argLimit workerGroups actualStartTime (entry # rest) acc =
     (case workerProfileStep argLimit workerGroups actualStartTime entry acc of
        Inl e \<Rightarrow> Inl e
      | Inr acc' \<Rightarrow> workerProfilesLoop argLimit workerGroups actualStartTime rest acc')"

text \<open>The final pass over the profiles of the file.\<close>

definition validateProfile :: "SpeedscopeProfile \<Rightarrow> SpeedscopeProfile" where
  "validateProfile t =
     (if SpeedscopeProfile.type t = sampled then
        (let s = (case SpeedscopeProfile.samples t of None \<Rightarrow> [] | Some x \<Rightarrow> x);
             w = (case weights t of None \<Rightarrow> [] | Some x \<Rightarrow> x);
             minLength = min (length s) (length w);
             s' = (if length s \<noteq> length w then take minLength s else s);
             w' = (if length s \<noteq> length w then take minLength w else w);
             ev = (if endValue t \<le> startValue t then max (startValue t + 1000) 1
                   else endValue t)
         in t\<lparr>SpeedscopeProfile.samples := Some s', weights := Some w', endValue := ev\<rparr>)
      else t\<lparr>events := Some (case events t of None \<Rightarrow> [] | Some x \<Rightarrow> x)\<rparr>)"

definition generateSpeedscopeFormat ::
  "argumentLimit \<Rightarrow> CPUProfile option \<Rightarrow> (string \<times> CPUProfile) list
     \<Rightarrow> (string \<times> WorkerPerformanceData list) list option \<Rightarrow> real
     \<Rightarrow> error + SpeedscopeFile" where
  "generateSpeedscopeFormat argLimit mainThreadProfile workerProfiles workerGroups baseStartTime =
     (let actualStartTime = actualStartTimeOf workerGroups baseStartTime;
          acc0 = (case mainThreadProfile of
                    None \<Rightarrow> ([], [], 0)
                  | Some p \<Rightarrow> fold extractFrame (CPUProfile.nodes p) ([], [], 0));
          (frameMap, frs, fid) =
            fold (\<lambda>entry acc. fold extractFrame (CPUProfile.nodes (snd entry)) acc)
              workerProfiles acc0;
          profs0 = mainThreadProfiles frameMap mainThreadProfile baseStartTime
      in case workerProfilesLoop argLimit workerGroups actualStartTime workerProfiles
                (frameMap, frs, profs0) of
           Inl e \<Rightarrow> Inl e
         | Inr (frameMap', frs', profs1) \<Rightarrow>
             (let profs2 = (if mainThreadProfile \<noteq> None \<and> length profs1 = 0
                            then profs1 @ [emptySampledProfile 1000] else profs1);
                  profs3 = (if length frs' = 0 \<and> length profs2 = 0
                            then (case mainThreadProfile of
                                    None \<Rightarrow> profs2
                                  | Some p \<Rightarrow>
                                      profs2 @ [emptySampledProfile
                                        (max ((CPUProfile.endTime p - CPUProfile.startTime p)
                                                * 1000) 1000)])
                            else profs2)
              in Inr \<lparr>schema = ''https://www.speedscope.app/file-format-schema.json'',
                      shared_frames = frs', profiles = map validateProfile profs3,
                      SpeedscopeFile.name = ''Performance Profile''\<rparr>))"

section \<open>Specification-side definitions\<close>

text \<open>
  The definitions of this section follow the words of the specification; the theorems of the
  next section compare them with the code above.
\<close>

text \<open>The time deltas of a telemetry profile before normalization: \<open>(record.startTime -
  startTime) * 1000\<close> for the records in ascending \<open>startTime\<close> order.\<close>

definition rawTimeDeltas :: "WorkerPerformanceData list \<Rightarrow> real \<Rightarrow> real list" where
  "rawTimeDeltas workerData st =
     map (\<lambda>d. (WorkerPerformanceData.startTime d - st) * 1000)
       (sort_key WorkerPerformanceData.startTime workerData)"

text \<open>A telemetry record as \<open>MainThreadInstrumentation.record\<close> builds it when the memory API
  is missing, the call stack is empty and the function has no marker.\<close>

definition perfData :: "string \<Rightarrow> string \<Rightarrow> real \<Rightarrow> real \<Rightarrow> WorkerPerformanceData" where
  "perfData wid fname st et =
     \<lparr>workerId = wid, WorkerPerformanceData.functionName = fname,
      WorkerPerformanceData.startTime = st, WorkerPerformanceData.endTime = et,
      duration = et - st, memoryBefore = None, memoryAfter = None, callStack = Some [],
      WorkerPerformanceData.marker = None\<rparr>"

text \<open>The identity key of a telemetry item inside one profile is the worker id and the
  function name (the source location is always 0:0); the node created for it carries the
  url \<open>Worker-<workerId>://<functionName>\<close>. \<open>nodesWithKey\<close> are the nodes of a profile
  for one key.\<close>

definition workerUrl :: "string \<Rightarrow> string \<Rightarrow> string" where
  "workerUrl wid fname = ''Worker-'' @ wid @ ''://'' @ fname"

definition nodesWithKey :: "string \<Rightarrow> string \<Rightarrow> CPUProfile \<Rightarrow> ProfileNode list" where
  "nodesWithKey wid fname p =
     filter (\<lambda>n. url (callFrame n) = workerUrl wid fname) (CPUProfile.nodes p)"

text \<open>The invariant of the interning loop: the urls of the nodes are distinct, every node
  is the node of a key that \<open>nodeMap\<close> sends to the node's id, and every key of \<open>nodeMap\<close>
  has its node.\<close>

definition nodeIndex :: "ProfileNode list \<Rightarrow> (string \<times> nat) list" where
  "nodeIndex ns = map (\<lambda>n. (url (callFrame n), node_id n)) ns"

definition internInv :: "string \<Rightarrow> CPUProfileGenerator \<Rightarrow> bool" where
  "internInv wid g \<longleftrightarrow>
     distinct (map fst (nodeIndex (CPUProfileGenerator.nodes g))) \<and>
     (\<forall>(u, k) \<in> set (nodeIndex (CPUProfileGenerator.nodes g)).
        \<exists>f. u = workerUrl wid f \<and> nodeMap g (workerNodeKey wid f) = Some k) \<and>
     (\<forall>f k. nodeMap g (workerNodeKey wid f) = Some k \<longrightarrow>
        (workerUrl wid f, k) \<in> set (nodeIndex (CPUProfileGenerator.nodes g)))"

text \<open>The identity key of a frame of a sampled trace is the string \<open>traceNodeKey\<close> that
  \<open>getOrCreateNode\<close> builds. \<open>nodeTraceKey\<close> reads the same key off a node (the thread
  prefix of the function name taken away again), \<open>nodesWithTraceKey\<close> are the nodes of a
  profile for one key, \<open>traceInv\<close> is the invariant of the registry: the keys of the nodes
  are distinct, \<open>nodeMap\<close> sends the key of every node to the node's id, and every key of
  \<open>nodeMap\<close> has its node. \<open>sampleFrame\<close> is the frame a trace sample resolves to.\<close>

definition nodeTraceKey :: "string \<Rightarrow> ProfileNode \<Rightarrow> string" where
  "nodeTraceKey threadName n =
     threadName @ ''::'' @
       (if threadName = ''Main Thread'' then CallFrame.functionName (callFrame n)
        else drop (length (''['' @ threadName @ ''] '')) (CallFrame.functionName (callFrame n)))
       @ ''::'' @ url (callFrame n) @ ''::'' @ toString (lineNumber (callFrame n)) @ ''::''
       @ toString (columnNumber (callFrame n))"

definition nodesWithTraceKey :: "string \<Rightarrow> string \<Rightarrow> CPUProfile \<Rightarrow> ProfileNode list" where
  "nodesWithTraceKey threadName key p =
     filter (\<lambda>n. nodeTraceKey threadName n = key) (CPUProfile.nodes p)"

definition traceInv :: "string \<Rightarrow> CPUProfileGenerator \<Rightarrow> bool" where
  "traceInv threadName g \<longleftrightarrow>
     distinct (map (nodeTraceKey threadName) (CPUProfileGenerator.nodes g)) \<and>
     (\<forall>n \<in> set (CPUProfileGenerator.nodes g).
        nodeMap g (nodeTraceKey threadName n) = Some (node_id n)) \<and>
     (\<forall>key k. nodeMap g key = Some k \<longrightarrow>
        (\<exists>n \<in> set (CPUProfileGenerator.nodes g).
           nodeTraceKey threadName n = key \<and> node_id n = k))"

definition traceFrames :: "ProfilerTrace \<Rightarrow> TraceFrame list" where
  "traceFrames tr = (case frames tr of None \<Rightarrow> [] | Some fs \<Rightarrow> fs)"

definition sampleFrame :: "TraceFrame list \<Rightarrow> TraceStack list \<Rightarrow> TraceSample \<Rightarrow> TraceFrame option" where
  "sampleFrame frs sts s =
     (case sampleFrameId sts s of
        None \<Rightarrow> None
      | Some fid \<Rightarrow> if fid < length frs then Some (frs ! fid) else None)"

text \<open>The samples of a trace that are not skipped: those whose stack exists and has a
  frame id. \<open>skewedTrace\<close> is a trace whose samples are not in time order.\<close>

definition resolvedSamples :: "TraceStack list \<Rightarrow> TraceSample list \<Rightarrow> TraceSample list" where
  "resolvedSamples sts smps = filter (\<lambda>s. sampleFrameId sts s \<noteq> None) smps"

definition resolvedSampleCount :: "ProfilerTrace option \<Rightarrow> nat" where
  "resolvedSampleCount trace =
     (case trace of
        None \<Rightarrow> 0
      | Some tr \<Rightarrow>
          (case (ProfilerTrace.samples tr, stacks tr) of
             (Some smps, Some sts) \<Rightarrow> length (resolvedSamples sts smps)
           | _ \<Rightarrow> 0))"

definition skewedTrace :: ProfilerTrace where
  "skewedTrace =
     \<lparr>resources = Some [],
      frames = Some [\<lparr>TraceFrame.name = Some ''work'', resourceId = None,
                      TraceFrame.line = Some 3, column = Some 7\<rparr>],
      stacks = Some [\<lparr>frameId = Some 0, parentId = None\<rparr>],
      ProfilerTrace.samples = Some [\<lparr>timestamp = 20, stackId = Some 0\<rparr>,
                                    \<lparr>timestamp = 10, stackId = Some 0\<rparr>,
                                    \<lparr>timestamp = 15, stackId = None\<rparr>]\<rparr>"

text \<open>\<open>recurringTrace\<close> is a trace whose first and third frame are the same function at the
  same location, each sampled once.\<close>

definition recurringTrace :: ProfilerTrace where
  "recurringTrace =
     \<lparr>resources = Some [],
      frames = Some [\<lparr>TraceFrame.name = Some ''work'', resourceId = None,
                      TraceFrame.line = Some 3, column = Some 7\<rparr>,
                     \<lparr>TraceFrame.name = Some ''idle'', resourceId = None,
                      TraceFrame.line = Some 9, column = Some 1\<rparr>,
                     \<lparr>TraceFrame.name = Some ''work'', resourceId = None,
                      TraceFrame.line = Some 3, column = Some 7\<rparr>],
      stacks = Some [\<lparr>frameId = Some 0, parentId = None\<rparr>,
                     \<lparr>frameId = Some 1, parentId = None\<rparr>,
                     \<lparr>frameId = Some 2, parentId = None\<rparr>],
      ProfilerTrace.samples = Some [\<lparr>timestamp = 1, stackId = Some 0\<rparr>,
                                    \<lparr>timestamp = 2, stackId = Some 1\<rparr>,
                                    \<lparr>timestamp = 3, stackId = Some 2\<rparr>]\<rparr>"

text \<open>The merge clock in the words of the specification: an adjusted delta that strictly
  exceeds the running cumulative clock is appended as it is, any other is bumped to
  \<open>cumulative + 1\<close> (a double); the appended value is the new clock. \<open>adjustedDeltas\<close> are
  the values \<open>timeOffset + originalDelta\<close> of one profile (doubles), \<open>remappedSamples\<close> its
  samples after node-id remapping.\<close>

fun runningClock :: "real \<Rightarrow> real list \<Rightarrow> real list" where
  "runningClock cumulative [] = []"
| "runningClock cumulative (adjustedDelta # rest) =
     (if adjustedDelta > cumulative
      then adjustedDelta # runningClock adjustedDelta rest
      else toDouble (cumulative + 1) # runningClock (toDouble (cumulative + 1)) rest)"

definition clockAfter :: "real \<Rightarrow> real list \<Rightarrow> real" where
  "clockAfter cumulative ds = last (cumulative # runningClock cumulative ds)"

definition adjustedDeltas :: "real \<Rightarrow> CPUProfile \<Rightarrow> real list" where
  "adjustedDeltas mergedStart p =
     map (\<lambda>i. toDouble (toDouble (toDouble (CPUProfile.startTime p - mergedStart) * 1000) +
                         originalDeltaAt (CPUProfile.timeDeltas p) i))
       [0 ..< length (CPUProfile.samples p)]"

definition remappedSamples :: "nat \<Rightarrow> CPUProfile \<Rightarrow> nat list" where
  "remappedSamples nodeIdOffset p =
     map (mappedNodeId (buildNodeMapping nodeIdOffset (CPUProfile.nodes p))) (CPUProfile.samples p)"

text \<open>The events of one telemetry record in the words of the specification: an open and a
  close event for the record's frame id if the open time is not negative and the close time
  does not precede it, nothing otherwise. \<open>eventsOf\<close> are the events of a profile of the
  exported file (none for a sampled profile).\<close>

definition openCloseEvents :: "real \<Rightarrow> WorkerPerformanceData \<Rightarrow> nat \<Rightarrow> SpeedscopeEvent list" where
  "openCloseEvents globalStartTime r fid =
     (let openAt = (WorkerPerformanceData.startTime r - globalStartTime) * 1000;
          closeAt = (WorkerPerformanceData.endTime r - globalStartTime) * 1000
      in if 0 \<le> openAt \<and> \<not> closeAt < openAt
         then [\<lparr>event_at = openAt, frame = fid, SpeedscopeEvent.type = OpenEvent\<rparr>,
               \<lparr>event_at = closeAt, frame = fid, SpeedscopeEvent.type = CloseEvent\<rparr>]
         else [])"

definition eventsOf :: "SpeedscopeProfile \<Rightarrow> SpeedscopeEvent list" where
  "eventsOf t = (case events t of None \<Rightarrow> [] | Some es \<Rightarrow> es)"

text \<open>\<open>recordEvents\<close> are the events of the records of one worker in record order, for a
  given assignment of frame ids to function names; \<open>eventCount\<close> is their number, two for
  every record with valid times; \<open>eventedTrack\<close> is the profile of the file made of the
  worker's events.\<close>

definition recordEvents ::
  "real \<Rightarrow> (string \<Rightarrow> nat) \<Rightarrow> WorkerPerformanceData list \<Rightarrow> SpeedscopeEvent list" where
  "recordEvents globalStartTime resolve workerData =
     concat (map (\<lambda>d. openCloseEvents globalStartTime d
                         (resolve (WorkerPerformanceData.functionName d))) workerData)"

definition validTimes :: "real \<Rightarrow> WorkerPerformanceData \<Rightarrow> bool" where
  "validTimes globalStartTime r \<longleftrightarrow>
     0 \<le> (WorkerPerformanceData.startTime r - globalStartTime) * 1000 \<and>
     (WorkerPerformanceData.startTime r - globalStartTime) * 1000
       \<le> (WorkerPerformanceData.endTime r - globalStartTime) * 1000"

definition eventCount :: "real \<Rightarrow> WorkerPerformanceData list \<Rightarrow> nat" where
  "eventCount globalStartTime workerData =
     2 * length (filter (validTimes globalStartTime) workerData)"

definition eventedTrack :: "string \<Rightarrow> SpeedscopeEvent list \<Rightarrow> SpeedscopeProfile" where
  "eventedTrack wid evs =
     \<lparr>SpeedscopeProfile.type = evented,
      SpeedscopeProfile.name = ''web-worker-'' @ workerIndexOf wid,
      unit = ''microseconds'',
      startValue = Min (set (map event_at evs)),
      endValue = Max (set (map event_at evs)),
      SpeedscopeProfile.samples = None, weights = None,
      events = Some evs\<rparr>"

section \<open>Verification\<close>

subsection \<open>The entry points do not depend on the generator's former state\<close>

lemma reset_fresh:
  "(reset g)\<lparr>CPUProfileGenerator.startTime := st\<rparr> =
   (reset g')\<lparr>CPUProfileGenerator.startTime := st\<rparr>"
  by (simp add: reset_def)

lemma generateFromTrace_fresh:
  "generateFromTrace mf g trace st et tn = generateFromTrace mf g' trace st et tn"
  unfolding generateFromTrace_def reset_fresh [where g = g and g' = g'] ..

lemma generateFromSingleWorkerData_fresh:
  "generateFromSingleWorkerData g workerData st et wid =
   generateFromSingleWorkerData g' workerData st et wid"
  unfolding generateFromSingleWorkerData_def reset_fresh [where g = g and g' = g'] ..

subsection \<open>Telemetry records: time deltas and the normalization pass\<close>

lemma getScriptId_fields:
  "CPUProfileGenerator.nodes (snd (getScriptId u g)) = CPUProfileGenerator.nodes g"
  "CPUProfileGenerator.samples (snd (getScriptId u g)) = CPUProfileGenerator.samples g"
  "CPUProfileGenerator.timeDeltas (snd (getScriptId u g)) = CPUProfileGenerator.timeDeltas g"
  "nodeMap (snd (getScriptId u g)) = nodeMap g"
  "nodeIdCounter (snd (getScriptId u g)) = nodeIdCounter g"
  "CPUProfileGenerator.startTime (snd (getScriptId u g)) = CPUProfileGenerator.startTime g"
  by (simp_all add: getScriptId_def Let_def split: option.split)

lemma addWorker_timeDeltas:
  "CPUProfileGenerator.timeDeltas (addWorkerPerformanceData d wid g) =
     CPUProfileGenerator.timeDeltas g @
       [(WorkerPerformanceData.startTime d - CPUProfileGenerator.startTime g) * 1000]"
  by (simp add: addWorkerPerformanceData_def Let_def case_prod_unfold getScriptId_fields
      split: option.split)

lemma addWorker_startTime:
  "CPUProfileGenerator.startTime (addWorkerPerformanceData d wid g) =
     CPUProfileGenerator.startTime g"
  by (simp add: addWorkerPerformanceData_def Let_def case_prod_unfold getScriptId_fields
      split: option.split)

lemma addWorker_samples_length:
  "length (CPUProfileGenerator.samples (addWorkerPerformanceData d wid g)) =
     Suc (length (CPUProfileGenerator.samples g))"
  by (simp add: addWorkerPerformanceData_def Let_def case_prod_unfold getScriptId_fields
      split: option.split)

lemma fold_addWorker_startTime:
  "CPUProfileGenerator.startTime (fold (\<lambda>d acc. addWorkerPerformanceData d wid acc) ds g) =
     CPUProfileGenerator.startTime g"
  by (induction ds arbitrary: g) (simp_all add: addWorker_startTime)

lemma fold_addWorker_timeDeltas:
  "CPUProfileGenerator.timeDeltas (fold (\<lambda>d acc. addWorkerPerformanceData d wid acc) ds g) =
     CPUProfileGenerator.timeDeltas g @
       map (\<lambda>d. (WorkerPerformanceData.startTime d - CPUProfileGenerator.startTime g) * 1000) ds"
  by (induction ds arbitrary: g) (simp_all add: addWorker_timeDeltas addWorker_startTime)

lemma fold_addWorker_samples_length:
  "length (CPUProfileGenerator.samples (fold (\<lambda>d acc. addWorkerPerformanceData d wid acc) ds g)) =
     length (CPUProfileGenerator.samples g) + length ds"
  by (induction ds arbitrary: g) (simp_all add: addWorker_samples_length)

lemma timeDeltas_before_normalization:
  "CPUProfileGenerator.timeDeltas
     (fold (\<lambda>d acc. addWorkerPerformanceData d wid acc)
        (sort_key WorkerPerformanceData.startTime workerData)
        ((reset g0)\<lparr>CPUProfileGenerator.startTime := st\<rparr>)) =
   rawTimeDeltas workerData st"
  by (simp add: fold_addWorker_timeDeltas rawTimeDeltas_def reset_def)

lemma normalizeLoop_length: "length (normalizeLoop l ts) = length ts"
  by (induction ts arbitrary: l) (simp_all add: Let_def)

lemma generateFromSingleWorkerData_timeDeltas:
  "CPUProfile.timeDeltas (fst (generateFromSingleWorkerData g0 workerData st et wid)) =
     normalizeLoop 0 (rawTimeDeltas workerData st)"
  by (simp add: generateFromSingleWorkerData_def Let_def normalizeTimeDeltas_def
      fold_addWorker_timeDeltas fold_addWorker_startTime reset_def rawTimeDeltas_def)

lemma normalizeLoop_nth:
  "i < length ts \<Longrightarrow>
   normalizeLoop l ts ! i =
     (let prev = (if i = 0 then l else normalizeLoop l ts ! (i - 1))
      in if ts ! i < prev then prev + 1 else ts ! i)"
proof (induction ts arbitrary: l i)
  case Nil
  then show ?case by simp
next
  case (Cons t ts)
  show ?case
  proof (cases i)
    case 0
    then show ?thesis by (simp add: Let_def)
  next
    case (Suc j)
    with Cons.prems have j: "j < length ts" by simp
    show ?thesis
      using Cons.IH [OF j, of "if t < l then l + 1 else t"] Suc
      by (cases j) (simp_all add: Let_def)
  qed
qed

lemma normalizeLoop_ge: "x \<in> set (normalizeLoop l ts) \<Longrightarrow> l \<le> x"
proof (induction ts arbitrary: l)
  case Nil
  then show ?case by simp
next
  case (Cons t ts)
  then show ?case by (fastforce simp: Let_def split: if_splits)
qed

lemma normalizeLoop_sorted: "sorted (normalizeLoop l ts)"
proof (induction ts arbitrary: l)
  case Nil
  then show ?case by simp
next
  case (Cons t ts)
  then show ?case by (auto simp: Let_def dest: normalizeLoop_ge)
qed

lemma generateFromSingleWorkerData_sorted:
  "sorted (CPUProfile.timeDeltas (fst (generateFromSingleWorkerData g0 workerData st et wid)))"
  by (simp add: generateFromSingleWorkerData_timeDeltas normalizeLoop_sorted)

text \<open>
  C4 (amended). In \<open>generateFromSingleWorkerData\<close> the array before the pass is
  \<open>rawTimeDeltas\<close> (lemma \<open>timeDeltas_before_normalization\<close>). The normalization pass keeps
  its length and compares every value with the running last value: 0 for the first element,
  the (possibly replaced) previous element of the result afterwards. A value below it is
  replaced by that value plus 1, every other value is unchanged.
\<close>

theorem normalization_pass_running_last:
  "length (CPUProfile.timeDeltas (fst (generateFromSingleWorkerData g0 workerData st et wid))) =
     length (rawTimeDeltas workerData st) \<and>
   (\<forall>i < length (rawTimeDeltas workerData st).
      CPUProfile.timeDeltas (fst (generateFromSingleWorkerData g0 workerData st et wid)) ! i =
        (let prev = (if i = 0 then 0
                     else CPUProfile.timeDeltas
                            (fst (generateFromSingleWorkerData g0 workerData st et wid)) ! (i - 1))
         in if rawTimeDeltas workerData st ! i < prev then prev + 1
            else rawTimeDeltas workerData st ! i))"
  unfolding generateFromSingleWorkerData_timeDeltas
  using normalizeLoop_nth [of _ "rawTimeDeltas workerData st" 0]
  by (simp add: normalizeLoop_length)

theorem normalization_pass_running_last_witness:
  "(1::nat) < length (rawTimeDeltas [perfData ''w1'' ''f'' 12 13, perfData ''w1'' ''g'' 5 6] 10) \<and>
   rawTimeDeltas [perfData ''w1'' ''f'' 12 13, perfData ''w1'' ''g'' 5 6] 10 = [- 5000, 2000] \<and>
   CPUProfile.timeDeltas (fst (generateFromSingleWorkerData newCPUProfileGenerator
      [perfData ''w1'' ''f'' 12 13, perfData ''w1'' ''g'' 5 6] 10 20 ''w1'')) ! 0 = 1 \<and>
   CPUProfile.timeDeltas (fst (generateFromSingleWorkerData newCPUProfileGenerator
      [perfData ''w1'' ''f'' 12 13, perfData ''w1'' ''g'' 5 6] 10 20 ''w1'')) ! 1 = 2000"
proof -
  have raw: "rawTimeDeltas [perfData ''w1'' ''f'' 12 13, perfData ''w1'' ''g'' 5 6] 10
               = [- 5000, 2000]"
    by (simp add: rawTimeDeltas_def perfData_def)
  let ?out = "CPUProfile.timeDeltas (fst (generateFromSingleWorkerData newCPUProfileGenerator
      [perfData ''w1'' ''f'' 12 13, perfData ''w1'' ''g'' 5 6] 10 20 ''w1''))"
  note main = normalization_pass_running_last [of newCPUProfileGenerator
        "[perfData ''w1'' ''f'' 12 13, perfData ''w1'' ''g'' 5 6]" 10 20 "''w1''",
        unfolded raw]
  from main have at0: "?out ! 0 = 1"
    by (simp add: Let_def)
  from main have "?out ! 1 = (let prev = ?out ! 0 in if [- 5000, 2000] ! 1 < prev then prev + 1
                              else [- 5000, 2000 :: real] ! 1)"
    by (simp add: Let_def)
  with at0 have at1: "?out ! 1 = 2000"
    by (simp add: Let_def)
  from raw at0 at1 show ?thesis
    by simp
qed

theorem first_delta_replaced_counterexample:
  "rawTimeDeltas [perfData ''w1'' ''f'' 5 6] 10 = [- 5000] \<and>
   CPUProfile.timeDeltas (fst (generateFromSingleWorkerData newCPUProfileGenerator
      [perfData ''w1'' ''f'' 5 6] 10 20 ''w1'')) = [1]"
  by (simp add: generateFromSingleWorkerData_timeDeltas rawTimeDeltas_def perfData_def)

subsection \<open>Telemetry records: interning\<close>

lemma workerNodeKey_inj: "workerNodeKey wid f = workerNodeKey wid f' \<Longrightarrow> f = f'"
proof -
  assume eq: "workerNodeKey wid f = workerNodeKey wid f'"
  then have "length (workerNodeKey wid f) = length (workerNodeKey wid f')"
    by simp
  then have len: "length f = length f'"
    by (simp add: workerNodeKey_def Let_def)
  from eq have "f @ ''::'' @ ''Worker-'' @ wid @ ''://'' @ f @ ''::0::0'' =
                f' @ ''::'' @ ''Worker-'' @ wid @ ''://'' @ f' @ ''::0::0''"
    by (simp add: workerNodeKey_def Let_def)
  with len show "f = f'"
    by (metis append_eq_append_conv)
qed

lemma workerUrl_inj: "workerUrl wid f = workerUrl wid f' \<Longrightarrow> f = f'"
  by (simp add: workerUrl_def)

lemma nodeIndex_incrementHitCount:
  "nodeIndex (incrementHitCount k ns) = nodeIndex ns"
  by (induction ns) (simp_all add: nodeIndex_def)

lemma addWorker_known:
  assumes "nodeMap g (workerNodeKey wid (WorkerPerformanceData.functionName d)) = Some k"
  shows "CPUProfileGenerator.nodes (addWorkerPerformanceData d wid g) =
           incrementHitCount k (CPUProfileGenerator.nodes g)"
    and "nodeMap (addWorkerPerformanceData d wid g) = nodeMap g"
    and "CPUProfileGenerator.samples (addWorkerPerformanceData d wid g) =
           CPUProfileGenerator.samples g @ [k]"
  using assms by (simp_all add: addWorkerPerformanceData_def Let_def)

lemma addWorker_new:
  assumes "nodeMap g (workerNodeKey wid (WorkerPerformanceData.functionName d)) = None"
  shows "\<exists>node. CPUProfileGenerator.nodes (addWorkerPerformanceData d wid g) =
                  CPUProfileGenerator.nodes g @ [node] \<and>
                node_id node = nodeIdCounter g \<and>
                url (callFrame node) = workerUrl wid (WorkerPerformanceData.functionName d)"
    and "nodeMap (addWorkerPerformanceData d wid g) =
           (nodeMap g)(workerNodeKey wid (WorkerPerformanceData.functionName d) \<mapsto> nodeIdCounter g)"
    and "CPUProfileGenerator.samples (addWorkerPerformanceData d wid g) =
           CPUProfileGenerator.samples g @ [nodeIdCounter g]"
  using assms
  by (simp_all add: addWorkerPerformanceData_def Let_def case_prod_unfold getScriptId_fields
      workerUrl_def)

lemma internInv_known:
  assumes inv: "internInv wid g"
    and known: "nodeMap g (workerNodeKey wid (WorkerPerformanceData.functionName d)) = Some k"
  shows "internInv wid (addWorkerPerformanceData d wid g)"
  using inv
  by (simp add: internInv_def addWorker_known [OF known] nodeIndex_incrementHitCount)

lemma internInv_new:
  assumes inv: "internInv wid g"
    and new: "nodeMap g (workerNodeKey wid (WorkerPerformanceData.functionName d)) = None"
  shows "internInv wid (addWorkerPerformanceData d wid g)"
proof -
  let ?fd = "WorkerPerformanceData.functionName d"
  let ?g' = "addWorkerPerformanceData d wid g"
  let ?ix = "nodeIndex (CPUProfileGenerator.nodes g)"
  from addWorker_new(1) [OF new] obtain node where
    ns: "CPUProfileGenerator.nodes ?g' = CPUProfileGenerator.nodes g @ [node]"
    and nid: "node_id node = nodeIdCounter g"
    and nurl: "url (callFrame node) = workerUrl wid ?fd"
    by blast
  have ix': "nodeIndex (CPUProfileGenerator.nodes ?g') = ?ix @ [(workerUrl wid ?fd, nodeIdCounter g)]"
    by (simp add: ns nid nurl nodeIndex_def)
  have nm': "nodeMap ?g' = (nodeMap g)(workerNodeKey wid ?fd \<mapsto> nodeIdCounter g)"
    by (rule addWorker_new(2) [OF new])
  from inv have d: "distinct (map fst ?ix)"
    and c2: "\<And>u k. (u, k) \<in> set ?ix \<Longrightarrow>
                \<exists>f. u = workerUrl wid f \<and> nodeMap g (workerNodeKey wid f) = Some k"
    and c3: "\<And>f k. nodeMap g (workerNodeKey wid f) = Some k \<Longrightarrow> (workerUrl wid f, k) \<in> set ?ix"
    by (auto simp: internInv_def)
  have fresh: "workerUrl wid ?fd \<notin> fst ` set ?ix"
  proof
    assume "workerUrl wid ?fd \<in> fst ` set ?ix"
    then obtain k where "(workerUrl wid ?fd, k) \<in> set ?ix"
      by auto
    from c2 [OF this] obtain f where "workerUrl wid ?fd = workerUrl wid f"
      and "nodeMap g (workerNodeKey wid f) = Some k"
      by blast
    with new show False
      by (auto dest: workerUrl_inj)
  qed
  have g1: "distinct (map fst (nodeIndex (CPUProfileGenerator.nodes ?g')))"
    using d fresh by (simp add: ix')
  have g2: "\<exists>f. u = workerUrl wid f \<and> nodeMap ?g' (workerNodeKey wid f) = Some k"
    if "(u, k) \<in> set (nodeIndex (CPUProfileGenerator.nodes ?g'))" for u k
  proof (cases "(u, k) \<in> set ?ix")
    case True
    from c2 [OF this] obtain f where f: "u = workerUrl wid f"
      "nodeMap g (workerNodeKey wid f) = Some k"
      by blast
    with new have "workerNodeKey wid f \<noteq> workerNodeKey wid ?fd"
      by auto
    with f show ?thesis
      by (auto simp: nm')
  next
    case False
    with that have "u = workerUrl wid ?fd" "k = nodeIdCounter g"
      by (simp_all add: ix')
    then show ?thesis
      by (auto simp: nm')
  qed
  have g3: "(workerUrl wid f, k) \<in> set (nodeIndex (CPUProfileGenerator.nodes ?g'))"
    if "nodeMap ?g' (workerNodeKey wid f) = Some k" for f k
  proof (cases "workerNodeKey wid f = workerNodeKey wid ?fd")
    case True
    then have "f = ?fd"
      by (rule workerNodeKey_inj)
    with that show ?thesis
      by (simp add: nm' ix')
  next
    case False
    with that have "nodeMap g (workerNodeKey wid f) = Some k"
      by (simp add: nm')
    from c3 [OF this] show ?thesis
      by (simp add: ix')
  qed
  from g1 g2 g3 show ?thesis
    unfolding internInv_def by blast
qed

lemma internInv_step: "internInv wid g \<Longrightarrow> internInv wid (addWorkerPerformanceData d wid g)"
  by (cases "nodeMap g (workerNodeKey wid (WorkerPerformanceData.functionName d))")
     (simp_all add: internInv_known internInv_new)

lemma addWorker_pushed:
  "\<exists>k. CPUProfileGenerator.samples (addWorkerPerformanceData d wid g) =
          CPUProfileGenerator.samples g @ [k] \<and>
        nodeMap (addWorkerPerformanceData d wid g)
          (workerNodeKey wid (WorkerPerformanceData.functionName d)) = Some k"
  by (cases "nodeMap g (workerNodeKey wid (WorkerPerformanceData.functionName d))")
     (simp_all add: addWorker_known addWorker_new)

lemma addWorker_mono:
  "nodeMap g key = Some k \<Longrightarrow> nodeMap (addWorkerPerformanceData d wid g) key = Some k"
  by (cases "nodeMap g (workerNodeKey wid (WorkerPerformanceData.functionName d))")
     (auto simp: addWorker_known addWorker_new)

lemma fold_addWorker_mono:
  "nodeMap g key = Some k \<Longrightarrow>
   nodeMap (fold (\<lambda>d acc. addWorkerPerformanceData d wid acc) ds g) key = Some k"
  by (induction ds arbitrary: g) (simp_all add: addWorker_mono)

lemma fold_addWorker_internInv:
  "internInv wid g \<Longrightarrow> internInv wid (fold (\<lambda>d acc. addWorkerPerformanceData d wid acc) ds g)"
  by (induction ds arbitrary: g) (simp_all add: internInv_step)

lemma fold_addWorker_samples:
  "\<exists>ids. CPUProfileGenerator.samples (fold (\<lambda>d acc. addWorkerPerformanceData d wid acc) ds g) =
            CPUProfileGenerator.samples g @ ids \<and>
          length ids = length ds \<and>
          (\<forall>i < length ds.
             nodeMap (fold (\<lambda>d acc. addWorkerPerformanceData d wid acc) ds g)
               (workerNodeKey wid (WorkerPerformanceData.functionName (ds ! i))) = Some (ids ! i))"
proof (induction ds arbitrary: g)
  case Nil
  then show ?case by simp
next
  case (Cons d ds)
  let ?g1 = "addWorkerPerformanceData d wid g"
  let ?gn = "fold (\<lambda>d acc. addWorkerPerformanceData d wid acc) ds ?g1"
  from addWorker_pushed [of d wid g] obtain k where
    k: "CPUProfileGenerator.samples ?g1 = CPUProfileGenerator.samples g @ [k]"
      "nodeMap ?g1 (workerNodeKey wid (WorkerPerformanceData.functionName d)) = Some k"
    by blast
  from Cons.IH [of ?g1] obtain ids where
    ids: "CPUProfileGenerator.samples ?gn = CPUProfileGenerator.samples ?g1 @ ids"
      "length ids = length ds"
      "\<forall>i < length ds. nodeMap ?gn
          (workerNodeKey wid (WorkerPerformanceData.functionName (ds ! i))) = Some (ids ! i)"
    by blast
  have first: "nodeMap ?gn (workerNodeKey wid (WorkerPerformanceData.functionName d)) = Some k"
    using k(2) by (rule fold_addWorker_mono)
  have "\<forall>i < length (d # ds). nodeMap ?gn
          (workerNodeKey wid (WorkerPerformanceData.functionName ((d # ds) ! i))) =
            Some ((k # ids) ! i)"
  proof (intro allI impI)
    fix i assume "i < length (d # ds)"
    then show "nodeMap ?gn (workerNodeKey wid (WorkerPerformanceData.functionName ((d # ds) ! i)))
                 = Some ((k # ids) ! i)"
      using first ids(3) by (cases i) simp_all
  qed
  with k(1) ids(1,2) show ?case
    by (intro exI [of _ "k # ids"]) simp
qed

lemma filter_distinct_key:
  "distinct (map h xs) \<Longrightarrow> x \<in> set xs \<Longrightarrow> filter (\<lambda>y. h y = h x) xs = [x]"
proof (induction xs)
  case Nil
  then show ?case by simp
next
  case (Cons a xs)
  show ?case
  proof (cases "a = x")
    case True
    with Cons.prems have "h x \<notin> h ` set xs"
      by simp
    then have "\<forall>y \<in> set xs. h y \<noteq> h x"
      by (metis imageI)
    then have "filter (\<lambda>y. h y = h x) xs = []"
      by (simp add: filter_empty_conv)
    with True show ?thesis by simp
  next
    case False
    with Cons show ?thesis by auto
  qed
qed

lemma normalizeTimeDeltas_fields:
  "CPUProfileGenerator.nodes (normalizeTimeDeltas g) = CPUProfileGenerator.nodes g"
  "CPUProfileGenerator.samples (normalizeTimeDeltas g) = CPUProfileGenerator.samples g"
  by (simp_all add: normalizeTimeDeltas_def)

lemma internInv_reset: "internInv wid ((reset g0)\<lparr>CPUProfileGenerator.startTime := st\<rparr>)"
  by (simp add: internInv_def reset_def nodeIndex_def)

lemma generateFromSingleWorkerData_interned:
  assumes i: "i < length workerData"
  shows "\<exists>n. nodesWithKey wid
               (WorkerPerformanceData.functionName
                  (sort_key WorkerPerformanceData.startTime workerData ! i))
               (fst (generateFromSingleWorkerData g0 workerData st et wid)) = [n] \<and>
             node_id n =
               CPUProfile.samples (fst (generateFromSingleWorkerData g0 workerData st et wid)) ! i"
proof -
  let ?S = "sort_key WorkerPerformanceData.startTime workerData"
  let ?g = "(reset g0)\<lparr>CPUProfileGenerator.startTime := st\<rparr>"
  let ?g1 = "fold (\<lambda>d acc. addWorkerPerformanceData d wid acc) ?S ?g"
  let ?f = "WorkerPerformanceData.functionName (?S ! i)"
  have nodes: "CPUProfile.nodes (fst (generateFromSingleWorkerData g0 workerData st et wid)) =
                 CPUProfileGenerator.nodes ?g1"
    and smps: "CPUProfile.samples (fst (generateFromSingleWorkerData g0 workerData st et wid)) =
                 CPUProfileGenerator.samples ?g1"
    by (simp_all add: generateFromSingleWorkerData_def Let_def normalizeTimeDeltas_fields)
  have inv: "internInv wid ?g1"
    by (rule fold_addWorker_internInv [OF internInv_reset])
  from fold_addWorker_samples [of wid ?S ?g] obtain ids where
    ids: "CPUProfileGenerator.samples ?g1 = CPUProfileGenerator.samples ?g @ ids"
      "\<forall>j < length ?S. nodeMap ?g1
          (workerNodeKey wid (WorkerPerformanceData.functionName (?S ! j))) = Some (ids ! j)"
    by blast
  have "CPUProfileGenerator.samples ?g = []"
    by (simp add: reset_def)
  with ids(1) have smps1: "CPUProfileGenerator.samples ?g1 = ids"
    by simp
  from ids(2) i have "nodeMap ?g1 (workerNodeKey wid ?f) = Some (ids ! i)"
    by simp
  with inv have "(workerUrl wid ?f, ids ! i) \<in> set (nodeIndex (CPUProfileGenerator.nodes ?g1))"
    unfolding internInv_def by blast
  then obtain n where n: "n \<in> set (CPUProfileGenerator.nodes ?g1)"
    "url (callFrame n) = workerUrl wid ?f" "node_id n = ids ! i"
    by (auto simp: nodeIndex_def)
  from inv have "distinct (map (\<lambda>n. url (callFrame n)) (CPUProfileGenerator.nodes ?g1))"
    by (simp add: internInv_def nodeIndex_def comp_def)
  from filter_distinct_key [OF this n(1)] n(2)
  have "nodesWithKey wid ?f (fst (generateFromSingleWorkerData g0 workerData st et wid)) = [n]"
    by (simp add: nodesWithKey_def nodes)
  with n(3) show ?thesis
    by (simp add: smps smps1)
qed

lemma generateFromSingleWorkerData_samples_length:
  "length (CPUProfile.samples (fst (generateFromSingleWorkerData g0 workerData st et wid))) =
     length workerData"
  by (simp add: generateFromSingleWorkerData_def Let_def normalizeTimeDeltas_fields
      fold_addWorker_samples_length reset_def)

lemma getOrCreateNode_nodeMap:
  "nodeMap (snd (getOrCreateNode mf fr tn g)) (traceNodeKey fr tn) =
     Some (fst (getOrCreateNode mf fr tn g))"
  by (simp add: getOrCreateNode_def Let_def case_prod_unfold getScriptId_fields
      split: option.split)

lemma getOrCreateNode_again:
  "getOrCreateNode mf fr tn (snd (getOrCreateNode mf fr tn g)) =
     (fst (getOrCreateNode mf fr tn g), snd (getOrCreateNode mf fr tn g))"
  using getOrCreateNode_nodeMap [of mf fr tn g]
  by (simp add: getOrCreateNode_def [of mf fr tn "snd (getOrCreateNode mf fr tn g)"] Let_def)

subsection \<open>Telemetry records: the caller's array\<close>

lemma generateFromSingleWorkerData_snd:
  "snd (generateFromSingleWorkerData g0 workerData st et wid) =
     sort_key WorkerPerformanceData.startTime workerData"
  by (simp add: generateFromSingleWorkerData_def Let_def)

text \<open>
  C10. After \<open>generateFromSingleWorkerData\<close> the caller's array holds the stable sort of its
  former contents by \<open>startTime\<close>: the same records (as a multiset, each one unchanged), in
  ascending \<open>startTime\<close> order, records with equal \<open>startTime\<close> in their former order. On an
  input that was not sorted the array has changed.
\<close>

theorem generateFromSingleWorkerData_sorts_argument:
  "snd (generateFromSingleWorkerData g0 workerData st et wid) =
     sort_key WorkerPerformanceData.startTime workerData \<and>
   mset (snd (generateFromSingleWorkerData g0 workerData st et wid)) = mset workerData \<and>
   sorted (map WorkerPerformanceData.startTime
             (snd (generateFromSingleWorkerData g0 workerData st et wid))) \<and>
   (\<forall>k. filter (\<lambda>d. WorkerPerformanceData.startTime d = k)
             (snd (generateFromSingleWorkerData g0 workerData st et wid)) =
        filter (\<lambda>d. WorkerPerformanceData.startTime d = k) workerData) \<and>
   snd (generateFromSingleWorkerData newCPUProfileGenerator
          [perfData ''w1'' ''f'' 12 13, perfData ''w1'' ''g'' 5 6] 0 20 ''w1'') =
     [perfData ''w1'' ''g'' 5 6, perfData ''w1'' ''f'' 12 13]"
  by (simp add: generateFromSingleWorkerData_snd sort_key_stable perfData_def)

subsection \<open>Sampled traces\<close>

lemma getOrCreateNode_fields:
  "CPUProfileGenerator.samples (snd (getOrCreateNode mf fr tn g)) = CPUProfileGenerator.samples g"
  "CPUProfileGenerator.timeDeltas (snd (getOrCreateNode mf fr tn g)) =
     CPUProfileGenerator.timeDeltas g"
  by (simp_all add: getOrCreateNode_def Let_def case_prod_unfold getScriptId_fields
      split: option.split)

lemma internFrames_fields:
  "CPUProfileGenerator.samples (internFrames mf tn frs g) = CPUProfileGenerator.samples g"
  "CPUProfileGenerator.timeDeltas (internFrames mf tn frs g) = CPUProfileGenerator.timeDeltas g"
  by (induction frs arbitrary: g) (simp_all add: getOrCreateNode_fields)

lemma processSamples_timeDeltas:
  "processSamples mf tn st frs sts smps g = Inr g' \<Longrightarrow>
   CPUProfileGenerator.timeDeltas g' =
     CPUProfileGenerator.timeDeltas g @
       map (\<lambda>s. (timestamp s - st) * 1000) (resolvedSamples sts smps)"
proof (induction smps arbitrary: g)
  case Nil
  then show ?case by (simp add: resolvedSamples_def)
next
  case (Cons s ss)
  show ?case
  proof (cases "sampleFrameId sts s")
    case None
    with Cons show ?thesis by (simp add: resolvedSamples_def)
  next
    case (Some fid)
    with Cons.prems have inrange: "fid < length frs"
      by (simp split: if_splits)
    let ?g1 = "snd (getOrCreateNode mf (frs ! fid) tn g)"
    let ?g2 = "?g1\<lparr>CPUProfileGenerator.samples :=
                   CPUProfileGenerator.samples ?g1 @ [fst (getOrCreateNode mf (frs ! fid) tn g)],
                 CPUProfileGenerator.timeDeltas :=
                   CPUProfileGenerator.timeDeltas ?g1 @ [(timestamp s - st) * 1000]\<rparr>"
    from Cons.prems Some inrange have "processSamples mf tn st frs sts ss ?g2 = Inr g'"
      by (simp add: case_prod_unfold Let_def)
    from Cons.IH [OF this] Some show ?thesis
      by (simp add: resolvedSamples_def getOrCreateNode_fields)
  qed
qed

lemma processSamples_samples_length:
  "processSamples mf tn st frs sts smps g = Inr g' \<Longrightarrow>
   length (CPUProfileGenerator.samples g') =
     length (CPUProfileGenerator.samples g) + length (resolvedSamples sts smps)"
proof (induction smps arbitrary: g)
  case Nil
  then show ?case by (simp add: resolvedSamples_def)
next
  case (Cons s ss)
  show ?case
  proof (cases "sampleFrameId sts s")
    case None
    with Cons show ?thesis by (simp add: resolvedSamples_def)
  next
    case (Some fid)
    with Cons.prems have inrange: "fid < length frs"
      by (simp split: if_splits)
    let ?g1 = "snd (getOrCreateNode mf (frs ! fid) tn g)"
    let ?g2 = "?g1\<lparr>CPUProfileGenerator.samples :=
                   CPUProfileGenerator.samples ?g1 @ [fst (getOrCreateNode mf (frs ! fid) tn g)],
                 CPUProfileGenerator.timeDeltas :=
                   CPUProfileGenerator.timeDeltas ?g1 @ [(timestamp s - st) * 1000]\<rparr>"
    from Cons.prems Some inrange have "processSamples mf tn st frs sts ss ?g2 = Inr g'"
      by (simp add: case_prod_unfold Let_def)
    from Cons.IH [OF this] Some show ?thesis
      by (simp add: resolvedSamples_def getOrCreateNode_fields)
  qed
qed

lemma processSamples_total:
  "(\<forall>s \<in> set smps. \<forall>fid. sampleFrameId sts s = Some fid \<longrightarrow> fid < length frs) \<Longrightarrow>
   \<exists>g'. processSamples mf tn st frs sts smps g = Inr g'"
proof (induction smps arbitrary: g)
  case Nil
  then show ?case by simp
next
  case (Cons s ss)
  then show ?case
    by (cases "sampleFrameId sts s") (simp_all add: case_prod_unfold Let_def)
qed

lemma generateFromTrace_Some:
  assumes "ProfilerTrace.samples tr = Some smps" and "stacks tr = Some sts"
    and "generateFromTrace mf g0 (Some tr) st et tn = Inr p"
  shows "CPUProfile.timeDeltas p = map (\<lambda>s. (timestamp s - st) * 1000) (resolvedSamples sts smps)"
    and "length (CPUProfile.samples p) = length (resolvedSamples sts smps)"
proof -
  let ?g = "(reset g0)\<lparr>CPUProfileGenerator.startTime := st\<rparr>"
  from assms obtain g' where
    g': "processTrace mf (frames tr) sts smps st tn ?g = Inr g'"
    and p: "p = \<lparr>CPUProfile.nodes = CPUProfileGenerator.nodes g',
                 CPUProfile.samples = CPUProfileGenerator.samples g',
                 CPUProfile.timeDeltas = CPUProfileGenerator.timeDeltas g',
                 CPUProfile.startTime = st, CPUProfile.endTime = et\<rparr>"
    by (auto simp: generateFromTrace_def Let_def split: sum.splits)
  let ?frs = "case frames tr of None \<Rightarrow> [] | Some fs \<Rightarrow> fs"
  from g' have ps: "processSamples mf tn st ?frs sts smps (internFrames mf tn ?frs ?g) = Inr g'"
    by (simp add: processTrace_def Let_def)
  from processSamples_timeDeltas [OF ps] processSamples_samples_length [OF ps]
  show "CPUProfile.timeDeltas p = map (\<lambda>s. (timestamp s - st) * 1000) (resolvedSamples sts smps)"
    and "length (CPUProfile.samples p) = length (resolvedSamples sts smps)"
    by (simp_all add: p internFrames_fields reset_def)
qed

lemma generateFromTrace_lengths:
  assumes "generateFromTrace mf g0 trace st et tn = Inr p"
  shows "length (CPUProfile.samples p) = resolvedSampleCount trace"
    and "length (CPUProfile.timeDeltas p) = resolvedSampleCount trace"
proof -
  have "length (CPUProfile.samples p) = resolvedSampleCount trace \<and>
        length (CPUProfile.timeDeltas p) = resolvedSampleCount trace"
  proof (cases trace)
    case None
    with assms show ?thesis
      by (auto simp: generateFromTrace_def resolvedSampleCount_def getEmptyProfile_def Let_def)
  next
    case (Some tr)
    show ?thesis
    proof (cases "ProfilerTrace.samples tr")
      case None
      with Some assms show ?thesis
        by (auto simp: generateFromTrace_def resolvedSampleCount_def getEmptyProfile_def Let_def)
    next
      case smps: (Some smps)
      show ?thesis
      proof (cases "stacks tr")
        case None
        with Some smps assms show ?thesis
          by (auto simp: generateFromTrace_def resolvedSampleCount_def getEmptyProfile_def Let_def)
      next
        case sts: (Some sts)
        from generateFromTrace_Some [OF smps sts] assms Some
        show ?thesis
          by (simp add: resolvedSampleCount_def smps sts)
      qed
    qed
  qed
  then show "length (CPUProfile.samples p) = resolvedSampleCount trace"
    and "length (CPUProfile.timeDeltas p) = resolvedSampleCount trace"
    by simp_all
qed

lemma generateFromTrace_total:
  assumes smps: "ProfilerTrace.samples tr = Some smps" and sts: "stacks tr = Some sts"
    and inrange: "\<forall>s \<in> set smps. \<forall>fid. sampleFrameId sts s = Some fid \<longrightarrow>
                    fid < length (case frames tr of None \<Rightarrow> [] | Some fs \<Rightarrow> fs)"
  shows "\<exists>p. generateFromTrace mf g0 (Some tr) st et tn = Inr p"
proof -
  let ?frs = "case frames tr of None \<Rightarrow> [] | Some fs \<Rightarrow> fs"
  let ?g = "internFrames mf tn ?frs ((reset g0)\<lparr>CPUProfileGenerator.startTime := st\<rparr>)"
  from processSamples_total [OF inrange, of mf tn st ?g] obtain g' where
    "processSamples mf tn st ?frs sts smps ?g = Inr g'"
    by blast
  then show ?thesis
    by (simp add: generateFromTrace_def processTrace_def Let_def smps sts)
qed

text \<open>
  C1 (the sampled-trace builder at a trace whose samples are not in time order). The trace
  \<open>skewedTrace\<close> has samples at 20 ms and 10 ms on the same stack (and one sample without a
  stack). \<open>generateFromTrace\<close> returns a profile whose \<open>timeDeltas\<close> are \<open>[20000, 10000]\<close>:
  they decrease.
\<close>

theorem generateFromTrace_timeDeltas_decrease:
  "\<exists>p. generateFromTrace Map.empty newCPUProfileGenerator (Some skewedTrace) 0 30 ''Main Thread''
         = Inr p \<and>
       CPUProfile.timeDeltas p = [20000, 10000] \<and>
       \<not> sorted (CPUProfile.timeDeltas p)"
proof -
  let ?smps = "[\<lparr>timestamp = 20, stackId = Some 0\<rparr>, \<lparr>timestamp = 10, stackId = Some 0\<rparr>,
                \<lparr>timestamp = 15, stackId = None\<rparr>]"
  let ?sts = "[\<lparr>frameId = Some 0, parentId = None\<rparr>]"
  have smps: "ProfilerTrace.samples skewedTrace = Some ?smps"
    and sts: "stacks skewedTrace = Some ?sts"
    by (simp_all add: skewedTrace_def)
  have "\<forall>s \<in> set ?smps. \<forall>fid. sampleFrameId ?sts s = Some fid \<longrightarrow>
          fid < length (case frames skewedTrace of None \<Rightarrow> [] | Some fs \<Rightarrow> fs)"
    by (simp add: sampleFrameId_def skewedTrace_def)
  from generateFromTrace_total [OF smps sts this] obtain p where
    p: "generateFromTrace Map.empty newCPUProfileGenerator (Some skewedTrace) 0 30 ''Main Thread''
          = Inr p"
    by blast
  from generateFromTrace_Some(1) [OF smps sts p]
  have "CPUProfile.timeDeltas p = [20000, 10000]"
    by (simp add: resolvedSamples_def sampleFrameId_def)
  with p show ?thesis
    by simp
qed

subsection \<open>Interning: one node per key\<close>

lemma nodeTraceKey_new:
  "nodeTraceKey tn
     \<lparr>node_id = nid,
      callFrame = \<lparr>CallFrame.functionName =
                      (if tn = ''Main Thread'' then traceFunctionName fr
                       else ''['' @ tn @ ''] '' @ traceFunctionName fr),
                    scriptId = sid, url = traceUrl fr tn,
                    lineNumber = orZero (TraceFrame.line fr), columnNumber = orZero (TraceFrame.column fr)\<rparr>,
      hitCount = h, ProfileNode.marker = m\<rparr> = traceNodeKey fr tn"
  by (simp add: nodeTraceKey_def traceNodeKey_def)

lemma getOrCreateNode_known:
  "nodeMap g (traceNodeKey fr tn) = Some k \<Longrightarrow> getOrCreateNode mf fr tn g = (k, g)"
  by (simp add: getOrCreateNode_def Let_def)

lemma getOrCreateNode_new:
  assumes "nodeMap g (traceNodeKey fr tn) = None"
  shows "\<exists>n. nodeTraceKey tn n = traceNodeKey fr tn \<and> node_id n = fst (getOrCreateNode mf fr tn g) \<and>
           CPUProfileGenerator.nodes (snd (getOrCreateNode mf fr tn g)) =
             CPUProfileGenerator.nodes g @ [n] \<and>
           nodeMap (snd (getOrCreateNode mf fr tn g)) =
             (nodeMap g)(traceNodeKey fr tn \<mapsto> node_id n)"
  using assms
  by (simp add: getOrCreateNode_def Let_def case_prod_unfold getScriptId_fields nodeTraceKey_new)

lemma getOrCreateNode_traceInv:
  assumes inv: "traceInv tn g"
  shows "traceInv tn (snd (getOrCreateNode mf fr tn g))"
proof (cases "nodeMap g (traceNodeKey fr tn)")
  case (Some k)
  with inv show ?thesis
    by (simp add: getOrCreateNode_known)
next
  case None
  from getOrCreateNode_new [OF None, of mf] obtain n where
    key: "nodeTraceKey tn n = traceNodeKey fr tn"
    and nodes: "CPUProfileGenerator.nodes (snd (getOrCreateNode mf fr tn g)) =
                  CPUProfileGenerator.nodes g @ [n]"
    and nm: "nodeMap (snd (getOrCreateNode mf fr tn g)) =
               (nodeMap g)(traceNodeKey fr tn \<mapsto> node_id n)"
    by blast
  from inv None have fresh: "\<forall>m \<in> set (CPUProfileGenerator.nodes g).
                               nodeTraceKey tn m \<noteq> traceNodeKey fr tn"
    by (auto simp: traceInv_def)
  with inv show ?thesis
    unfolding traceInv_def nodes nm
    by (auto simp: key)
qed

lemma getOrCreateNode_mono:
  "nodeMap g key = Some k \<Longrightarrow> nodeMap (snd (getOrCreateNode mf fr tn g)) key = Some k"
  by (cases "nodeMap g (traceNodeKey fr tn)")
     (auto simp: getOrCreateNode_def Let_def case_prod_unfold getScriptId_fields)

lemma internFrames_traceInv:
  "traceInv tn g \<Longrightarrow> traceInv tn (internFrames mf tn frs g)"
  by (induction frs arbitrary: g) (simp_all add: getOrCreateNode_traceInv)

lemma internFrames_mono:
  "nodeMap g key = Some k \<Longrightarrow> nodeMap (internFrames mf tn frs g) key = Some k"
  by (induction frs arbitrary: g) (simp_all add: getOrCreateNode_mono)

lemma internFrames_interned:
  "fr \<in> set frs \<Longrightarrow> nodeMap (internFrames mf tn frs g) (traceNodeKey fr tn) \<noteq> None"
proof (induction frs arbitrary: g)
  case Nil
  then show ?case by simp
next
  case (Cons a frs)
  show ?case
  proof (cases "fr = a")
    case True
    from internFrames_mono [OF getOrCreateNode_nodeMap [of mf a tn g], of mf tn frs] True
    show ?thesis by simp
  next
    case False
    with Cons show ?thesis by simp
  qed
qed

lemma traceInv_fields:
  "traceInv tn (g\<lparr>CPUProfileGenerator.samples := s, CPUProfileGenerator.timeDeltas := t\<rparr>) =
     traceInv tn g"
  by (simp add: traceInv_def)

lemma processSamples_step:
  assumes "sampleFrameId sts s = Some fid"
    and "processSamples mf tn st frs sts (s # ss) g = Inr g'"
  shows "fid < length frs"
    and "processSamples mf tn st frs sts ss
           ((snd (getOrCreateNode mf (frs ! fid) tn g))
              \<lparr>CPUProfileGenerator.samples :=
                 CPUProfileGenerator.samples (snd (getOrCreateNode mf (frs ! fid) tn g)) @
                   [fst (getOrCreateNode mf (frs ! fid) tn g)],
               CPUProfileGenerator.timeDeltas :=
                 CPUProfileGenerator.timeDeltas (snd (getOrCreateNode mf (frs ! fid) tn g)) @
                   [(timestamp s - st) * 1000]\<rparr>) = Inr g'"
  using assms by (simp_all add: case_prod_unfold Let_def split: if_splits)

lemma processSamples_traceInv:
  "processSamples mf tn st frs sts smps g = Inr g' \<Longrightarrow> traceInv tn g \<Longrightarrow> traceInv tn g'"
proof (induction smps arbitrary: g)
  case Nil
  then show ?case by simp
next
  case (Cons s ss)
  show ?case
  proof (cases "sampleFrameId sts s")
    case None
    with Cons show ?thesis by simp
  next
    case (Some fid)
    from Cons.IH [OF processSamples_step(2) [OF Some Cons.prems(1)]] Cons.prems(2)
    show ?thesis
      by (simp add: traceInv_fields getOrCreateNode_traceInv)
  qed
qed

lemma processSamples_mono:
  "processSamples mf tn st frs sts smps g = Inr g' \<Longrightarrow> nodeMap g key = Some k \<Longrightarrow>
   nodeMap g' key = Some k"
proof (induction smps arbitrary: g)
  case Nil
  then show ?case by simp
next
  case (Cons s ss)
  show ?case
  proof (cases "sampleFrameId sts s")
    case None
    with Cons show ?thesis by simp
  next
    case (Some fid)
    from Cons.IH [OF processSamples_step(2) [OF Some Cons.prems(1)]] Cons.prems(2)
    show ?thesis
      by (simp add: getOrCreateNode_mono)
  qed
qed

lemma processSamples_samples:
  "processSamples mf tn st frs sts smps g = Inr g' \<Longrightarrow>
   map Some (CPUProfileGenerator.samples g') =
     map Some (CPUProfileGenerator.samples g) @
       map (\<lambda>s. case sampleFrame frs sts s of
                    None \<Rightarrow> None
                  | Some fr \<Rightarrow> nodeMap g' (traceNodeKey fr tn))
         (resolvedSamples sts smps) \<and>
   (\<forall>s \<in> set (resolvedSamples sts smps). sampleFrame frs sts s \<noteq> None)"
proof (induction smps arbitrary: g)
  case Nil
  then show ?case by (simp add: resolvedSamples_def)
next
  case (Cons s ss)
  show ?case
  proof (cases "sampleFrameId sts s")
    case None
    with Cons show ?thesis by (simp add: resolvedSamples_def)
  next
    case (Some fid)
    let ?r = "getOrCreateNode mf (frs ! fid) tn g"
    note step = processSamples_step [OF Some Cons.prems]
    have fr: "sampleFrame frs sts s = Some (frs ! fid)"
      using Some step(1) by (simp add: sampleFrame_def)
    have "nodeMap (snd ?r) (traceNodeKey (frs ! fid) tn) = Some (fst ?r)"
      by (rule getOrCreateNode_nodeMap)
    then have "nodeMap g' (traceNodeKey (frs ! fid) tn) = Some (fst ?r)"
      by (intro processSamples_mono [OF step(2)]) simp
    with Cons.IH [OF step(2)] Some fr show ?thesis
      by (simp add: resolvedSamples_def getOrCreateNode_fields)
  qed
qed


lemma traceInv_one_node:
  assumes "traceInv tn g" and "nodeMap g key = Some k"
  shows "\<exists>n. filter (\<lambda>m. nodeTraceKey tn m = key) (CPUProfileGenerator.nodes g) = [n] \<and>
             node_id n = k"
proof -
  from assms have "\<exists>n \<in> set (CPUProfileGenerator.nodes g). nodeTraceKey tn n = key \<and> node_id n = k"
    unfolding traceInv_def by blast
  then obtain n where n: "n \<in> set (CPUProfileGenerator.nodes g)"
    and key: "nodeTraceKey tn n = key" and k: "node_id n = k"
    by blast
  from assms(1) have "distinct (map (nodeTraceKey tn) (CPUProfileGenerator.nodes g))"
    by (simp add: traceInv_def)
  from filter_distinct_key [OF this n] key k show ?thesis
    by auto
qed

lemma traceInv_reset: "traceInv tn ((reset g0)\<lparr>CPUProfileGenerator.startTime := st\<rparr>)"
  by (simp add: traceInv_def reset_def)

lemma generateFromTrace_interned:
  assumes smps: "ProfilerTrace.samples tr = Some smps" and sts: "stacks tr = Some sts"
    and ret: "generateFromTrace mf g0 (Some tr) st et tn = Inr p"
  shows "distinct (map (nodeTraceKey tn) (CPUProfile.nodes p))"
    and "i < length (resolvedSamples sts smps) \<Longrightarrow>
         \<exists>fr n. sampleFrame (traceFrames tr) sts (resolvedSamples sts smps ! i) = Some fr \<and>
                nodesWithTraceKey tn (traceNodeKey fr tn) p = [n] \<and>
                node_id n = CPUProfile.samples p ! i"
    and "fr' \<in> set (traceFrames tr) \<Longrightarrow> \<exists>n. nodesWithTraceKey tn (traceNodeKey fr' tn) p = [n]"
proof -
  let ?g = "(reset g0)\<lparr>CPUProfileGenerator.startTime := st\<rparr>"
  let ?frs = "traceFrames tr"
  let ?rs = "resolvedSamples sts smps"
  from assms obtain g' where
    g': "processTrace mf (frames tr) sts smps st tn ?g = Inr g'"
    and p: "p = \<lparr>CPUProfile.nodes = CPUProfileGenerator.nodes g',
                 CPUProfile.samples = CPUProfileGenerator.samples g',
                 CPUProfile.timeDeltas = CPUProfileGenerator.timeDeltas g',
                 CPUProfile.startTime = st, CPUProfile.endTime = et\<rparr>"
    by (auto simp: generateFromTrace_def Let_def split: sum.splits)
  from g' have ps: "processSamples mf tn st ?frs sts smps (internFrames mf tn ?frs ?g) = Inr g'"
    by (simp add: processTrace_def Let_def traceFrames_def)
  have inv: "traceInv tn g'"
    by (rule processSamples_traceInv [OF ps internFrames_traceInv [OF traceInv_reset]])
  then show "distinct (map (nodeTraceKey tn) (CPUProfile.nodes p))"
    by (simp add: traceInv_def p)
  from processSamples_samples [OF ps, of ] have
    eq: "map Some (CPUProfileGenerator.samples g') =
           map (\<lambda>s. case sampleFrame ?frs sts s of
                        None \<Rightarrow> None
                      | Some fr \<Rightarrow> nodeMap g' (traceNodeKey fr tn)) ?rs"
    and def: "\<forall>s \<in> set ?rs. sampleFrame ?frs sts s \<noteq> None"
    by (simp_all add: internFrames_fields reset_def)
  {
    assume i: "i < length ?rs"
    with def obtain fr where fr: "sampleFrame ?frs sts (?rs ! i) = Some fr"
      by (metis nth_mem not_None_eq)
    from eq have len: "length (CPUProfileGenerator.samples g') = length ?rs"
      by (metis length_map)
    from arg_cong [OF eq, of "\<lambda>xs. xs ! i"] i len fr
    have "nodeMap g' (traceNodeKey fr tn) = Some (CPUProfileGenerator.samples g' ! i)"
      by simp
    from traceInv_one_node [OF inv this] fr
    show "\<exists>fr n. sampleFrame ?frs sts (?rs ! i) = Some fr \<and>
                nodesWithTraceKey tn (traceNodeKey fr tn) p = [n] \<and>
                node_id n = CPUProfile.samples p ! i"
      by (auto simp: nodesWithTraceKey_def p)
  }
  {
    assume "fr' \<in> set ?frs"
    from internFrames_interned [OF this, of mf tn ?g] obtain k where
      "nodeMap (internFrames mf tn ?frs ?g) (traceNodeKey fr' tn) = Some k"
      by blast
    from processSamples_mono [OF ps this] have "nodeMap g' (traceNodeKey fr' tn) = Some k" .
    from traceInv_one_node [OF inv this]
    show "\<exists>n. nodesWithTraceKey tn (traceNodeKey fr' tn) p = [n]"
      by (auto simp: nodesWithTraceKey_def p)
  }
qed

text \<open>
  C7. Within one run of \<open>generateFromSingleWorkerData\<close> every record of the (sorted) input has
  one sample, and the nodes of the profile carrying the record's key (worker id and function
  name, rendered in the node's url) are exactly one node, whose id is the record's sample.
  So two records with the same function name get the same node id, and the later one adds no
  node. For frames of a sampled trace, \<open>getOrCreateNode\<close> called again with the same frame
  returns the same id and leaves the generator unchanged; and in every profile that
  \<open>generateFromTrace\<close> returns, each resolved sample has one entry in \<open>samples\<close>, the keys of
  the nodes are distinct, the nodes carrying the key of a sample's frame are exactly one node,
  whose id is the sample's entry, two samples whose frames have the same key have the same
  entry, and every frame of the trace has exactly one node.
\<close>

theorem interning_idempotent:
  "length (CPUProfile.samples (fst (generateFromSingleWorkerData g0 workerData st et wid))) =
     length workerData \<and>
   (\<forall>i < length workerData.
      \<exists>n. nodesWithKey wid
             (WorkerPerformanceData.functionName
                (sort_key WorkerPerformanceData.startTime workerData ! i))
             (fst (generateFromSingleWorkerData g0 workerData st et wid)) = [n] \<and>
           node_id n =
             CPUProfile.samples (fst (generateFromSingleWorkerData g0 workerData st et wid)) ! i) \<and>
   (\<forall>i < length workerData. \<forall>j < length workerData.
      WorkerPerformanceData.functionName (sort_key WorkerPerformanceData.startTime workerData ! i) =
      WorkerPerformanceData.functionName (sort_key WorkerPerformanceData.startTime workerData ! j)
      \<longrightarrow>
      CPUProfile.samples (fst (generateFromSingleWorkerData g0 workerData st et wid)) ! i =
      CPUProfile.samples (fst (generateFromSingleWorkerData g0 workerData st et wid)) ! j) \<and>
   getOrCreateNode mf fr tn (snd (getOrCreateNode mf fr tn g)) =
     (fst (getOrCreateNode mf fr tn g), snd (getOrCreateNode mf fr tn g)) \<and>
   (ProfilerTrace.samples tr = Some smps \<and> stacks tr = Some sts \<and>
    generateFromTrace mf g0 (Some tr) st et tn = Inr p \<longrightarrow>
      length (CPUProfile.samples p) = length (resolvedSamples sts smps) \<and>
      distinct (map (nodeTraceKey tn) (CPUProfile.nodes p)) \<and>
      (\<forall>i < length (resolvedSamples sts smps).
         \<exists>f n. sampleFrame (traceFrames tr) sts (resolvedSamples sts smps ! i) = Some f \<and>
               nodesWithTraceKey tn (traceNodeKey f tn) p = [n] \<and>
               node_id n = CPUProfile.samples p ! i) \<and>
      (\<forall>i < length (resolvedSamples sts smps). \<forall>j < length (resolvedSamples sts smps).
         \<forall>f f'. sampleFrame (traceFrames tr) sts (resolvedSamples sts smps ! i) = Some f \<and>
                sampleFrame (traceFrames tr) sts (resolvedSamples sts smps ! j) = Some f' \<and>
                traceNodeKey f tn = traceNodeKey f' tn \<longrightarrow>
                CPUProfile.samples p ! i = CPUProfile.samples p ! j) \<and>
      (\<forall>f \<in> set (traceFrames tr). \<exists>n. nodesWithTraceKey tn (traceNodeKey f tn) p = [n]))"
proof (intro conjI allI impI ballI)
  show "length (CPUProfile.samples (fst (generateFromSingleWorkerData g0 workerData st et wid))) =
     length workerData"
    by (rule generateFromSingleWorkerData_samples_length)
next
  fix i assume "i < length workerData"
  then show "\<exists>n. nodesWithKey wid
             (WorkerPerformanceData.functionName
                (sort_key WorkerPerformanceData.startTime workerData ! i))
             (fst (generateFromSingleWorkerData g0 workerData st et wid)) = [n] \<and>
           node_id n =
             CPUProfile.samples (fst (generateFromSingleWorkerData g0 workerData st et wid)) ! i"
    by (rule generateFromSingleWorkerData_interned)
next
  fix i j
  assume i: "i < length workerData" and j: "j < length workerData"
    and eq: "WorkerPerformanceData.functionName
               (sort_key WorkerPerformanceData.startTime workerData ! i) =
             WorkerPerformanceData.functionName
               (sort_key WorkerPerformanceData.startTime workerData ! j)"
  from generateFromSingleWorkerData_interned [OF i, of wid g0 st et]
       generateFromSingleWorkerData_interned [OF j, of wid g0 st et] eq
  show "CPUProfile.samples (fst (generateFromSingleWorkerData g0 workerData st et wid)) ! i =
        CPUProfile.samples (fst (generateFromSingleWorkerData g0 workerData st et wid)) ! j"
    by auto
next
  show "getOrCreateNode mf fr tn (snd (getOrCreateNode mf fr tn g)) =
     (fst (getOrCreateNode mf fr tn g), snd (getOrCreateNode mf fr tn g))"
    by (rule getOrCreateNode_again)
next
  assume "ProfilerTrace.samples tr = Some smps \<and> stacks tr = Some sts \<and>
          generateFromTrace mf g0 (Some tr) st et tn = Inr p"
  then have smps: "ProfilerTrace.samples tr = Some smps" and sts: "stacks tr = Some sts"
    and ret: "generateFromTrace mf g0 (Some tr) st et tn = Inr p"
    by simp_all
  show "length (CPUProfile.samples p) = length (resolvedSamples sts smps)"
    by (rule generateFromTrace_Some(2) [OF smps sts ret])
next
  assume "ProfilerTrace.samples tr = Some smps \<and> stacks tr = Some sts \<and>
          generateFromTrace mf g0 (Some tr) st et tn = Inr p"
  then have smps: "ProfilerTrace.samples tr = Some smps" and sts: "stacks tr = Some sts"
    and ret: "generateFromTrace mf g0 (Some tr) st et tn = Inr p"
    by simp_all
  show "distinct (map (nodeTraceKey tn) (CPUProfile.nodes p))"
    by (rule generateFromTrace_interned(1) [OF smps sts ret])
next
  fix i
  assume i: "i < length (resolvedSamples sts smps)"
  assume "ProfilerTrace.samples tr = Some smps \<and> stacks tr = Some sts \<and>
          generateFromTrace mf g0 (Some tr) st et tn = Inr p"
  then have smps: "ProfilerTrace.samples tr = Some smps" and sts: "stacks tr = Some sts"
    and ret: "generateFromTrace mf g0 (Some tr) st et tn = Inr p"
    by simp_all
  show "\<exists>f n. sampleFrame (traceFrames tr) sts (resolvedSamples sts smps ! i) = Some f \<and>
               nodesWithTraceKey tn (traceNodeKey f tn) p = [n] \<and>
               node_id n = CPUProfile.samples p ! i"
    by (rule generateFromTrace_interned(2) [OF smps sts ret i])
next
  fix i j f f'
  assume h: "ProfilerTrace.samples tr = Some smps \<and> stacks tr = Some sts \<and>
          generateFromTrace mf g0 (Some tr) st et tn = Inr p"
    and i: "i < length (resolvedSamples sts smps)"
    and j: "j < length (resolvedSamples sts smps)"
    and eq: "sampleFrame (traceFrames tr) sts (resolvedSamples sts smps ! i) = Some f \<and>
             sampleFrame (traceFrames tr) sts (resolvedSamples sts smps ! j) = Some f' \<and>
             traceNodeKey f tn = traceNodeKey f' tn"
  from h have smps: "ProfilerTrace.samples tr = Some smps" and sts: "stacks tr = Some sts"
    and ret: "generateFromTrace mf g0 (Some tr) st et tn = Inr p"
    by simp_all
  from generateFromTrace_interned(2) [OF smps sts ret i]
       generateFromTrace_interned(2) [OF smps sts ret j] eq
  show "CPUProfile.samples p ! i = CPUProfile.samples p ! j"
    by auto
next
  fix f
  assume f: "f \<in> set (traceFrames tr)"
  assume "ProfilerTrace.samples tr = Some smps \<and> stacks tr = Some sts \<and>
          generateFromTrace mf g0 (Some tr) st et tn = Inr p"
  then have smps: "ProfilerTrace.samples tr = Some smps" and sts: "stacks tr = Some sts"
    and ret: "generateFromTrace mf g0 (Some tr) st et tn = Inr p"
    by simp_all
  show "\<exists>n. nodesWithTraceKey tn (traceNodeKey f tn) p = [n]"
    by (rule generateFromTrace_interned(3) [OF smps sts ret f])
qed

theorem interning_idempotent_witness:
  "(1::nat) < length [perfData ''w1'' ''f'' 12 13, perfData ''w1'' ''g'' 5 6, perfData ''w1'' ''f'' 7 8] \<and>
   (2::nat) < length [perfData ''w1'' ''f'' 12 13, perfData ''w1'' ''g'' 5 6, perfData ''w1'' ''f'' 7 8] \<and>
   sort_key WorkerPerformanceData.startTime
     [perfData ''w1'' ''f'' 12 13, perfData ''w1'' ''g'' 5 6, perfData ''w1'' ''f'' 7 8] =
     [perfData ''w1'' ''g'' 5 6, perfData ''w1'' ''f'' 7 8, perfData ''w1'' ''f'' 12 13] \<and>
   CPUProfile.samples (fst (generateFromSingleWorkerData newCPUProfileGenerator
     [perfData ''w1'' ''f'' 12 13, perfData ''w1'' ''g'' 5 6, perfData ''w1'' ''f'' 7 8]
     0 20 ''w1'')) ! 1 =
   CPUProfile.samples (fst (generateFromSingleWorkerData newCPUProfileGenerator
     [perfData ''w1'' ''f'' 12 13, perfData ''w1'' ''g'' 5 6, perfData ''w1'' ''f'' 7 8]
     0 20 ''w1'')) ! 2 \<and>
   (\<exists>p. generateFromTrace Map.empty newCPUProfileGenerator (Some recurringTrace) 0 20 ''Main Thread'' =
           Inr p \<and>
        length (CPUProfile.samples p) = 3 \<and>
        CPUProfile.samples p ! 0 = CPUProfile.samples p ! 2 \<and>
        distinct (map (nodeTraceKey ''Main Thread'') (CPUProfile.nodes p)))"
proof -
  let ?W = "[perfData ''w1'' ''f'' 12 13, perfData ''w1'' ''g'' 5 6, perfData ''w1'' ''f'' 7 8]"
  have srt: "sort_key WorkerPerformanceData.startTime ?W =
               [perfData ''w1'' ''g'' 5 6, perfData ''w1'' ''f'' 7 8, perfData ''w1'' ''f'' 12 13]"
    by (simp add: perfData_def)
  have fn: "WorkerPerformanceData.functionName (sort_key WorkerPerformanceData.startTime ?W ! 1) =
            WorkerPerformanceData.functionName (sort_key WorkerPerformanceData.startTime ?W ! 2)"
    unfolding srt by (simp add: perfData_def)
  have l1: "(1::nat) < length ?W" and l2: "(2::nat) < length ?W"
    by simp_all
  let ?work = "\<lparr>TraceFrame.name = Some ''work'', resourceId = None,
                 TraceFrame.line = Some 3, column = Some 7\<rparr>"
  let ?smps = "[\<lparr>timestamp = 1, stackId = Some 0\<rparr>, \<lparr>timestamp = 2, stackId = Some 1\<rparr>,
                \<lparr>timestamp = 3, stackId = Some 2\<rparr>]"
  let ?sts = "[\<lparr>frameId = Some 0, parentId = None\<rparr>, \<lparr>frameId = Some 1, parentId = None\<rparr>,
               \<lparr>frameId = Some 2, parentId = None\<rparr>]"
  have smps: "ProfilerTrace.samples recurringTrace = Some ?smps"
    and sts: "stacks recurringTrace = Some ?sts"
    by (simp_all add: recurringTrace_def)
  have "\<forall>s \<in> set ?smps. \<forall>fid. sampleFrameId ?sts s = Some fid \<longrightarrow>
          fid < length (case frames recurringTrace of None \<Rightarrow> [] | Some fs \<Rightarrow> fs)"
    by (simp add: sampleFrameId_def recurringTrace_def)
  from generateFromTrace_total [OF smps sts this] obtain p where
    p: "generateFromTrace Map.empty newCPUProfileGenerator (Some recurringTrace) 0 20
          ''Main Thread'' = Inr p"
    by blast
  have rs: "resolvedSamples ?sts ?smps = ?smps"
    by (simp add: resolvedSamples_def sampleFrameId_def)
  have f0: "sampleFrame (traceFrames recurringTrace) ?sts (resolvedSamples ?sts ?smps ! 0) =
              Some ?work"
    and f2: "sampleFrame (traceFrames recurringTrace) ?sts (resolvedSamples ?sts ?smps ! 2) =
              Some ?work"
    unfolding rs
    by (simp_all add: sampleFrame_def sampleFrameId_def traceFrames_def recurringTrace_def)
  have i0: "(0::nat) < length (resolvedSamples ?sts ?smps)"
    and i2: "(2::nat) < length (resolvedSamples ?sts ?smps)"
    unfolding rs by simp_all
  note main = interning_idempotent [of newCPUProfileGenerator ?W 0 20 "''w1''" Map.empty
      ?work "''Main Thread''" newCPUProfileGenerator recurringTrace ?smps ?sts p]
  from main l1 l2 fn
  have a: "CPUProfile.samples (fst (generateFromSingleWorkerData newCPUProfileGenerator ?W 0 20 ''w1'')) ! 1 =
        CPUProfile.samples (fst (generateFromSingleWorkerData newCPUProfileGenerator ?W 0 20 ''w1'')) ! 2"
    by blast
  from main smps sts p
  have len: "length (CPUProfile.samples p) = length (resolvedSamples ?sts ?smps)"
    and dist: "distinct (map (nodeTraceKey ''Main Thread'') (CPUProfile.nodes p))"
    and same: "\<forall>i < length (resolvedSamples ?sts ?smps). \<forall>j < length (resolvedSamples ?sts ?smps).
         \<forall>f f'. sampleFrame (traceFrames recurringTrace) ?sts (resolvedSamples ?sts ?smps ! i) = Some f \<and>
                sampleFrame (traceFrames recurringTrace) ?sts (resolvedSamples ?sts ?smps ! j) = Some f' \<and>
                traceNodeKey f ''Main Thread'' = traceNodeKey f' ''Main Thread'' \<longrightarrow>
                CPUProfile.samples p ! i = CPUProfile.samples p ! j"
    by blast+
  from same i0 i2 f0 f2 have b: "CPUProfile.samples p ! 0 = CPUProfile.samples p ! 2"
    by blast
  from len have len3: "length (CPUProfile.samples p) = 3"
    unfolding rs by simp
  from a b l1 l2 srt p len3 dist show ?thesis
    by blast
qed

subsection \<open>Merging profiles\<close>

lemma generateFromSingleWorkerData_timeDeltas_length:
  "length (CPUProfile.timeDeltas (fst (generateFromSingleWorkerData g0 workerData st et wid))) =
     length workerData"
  by (simp add: generateFromSingleWorkerData_timeDeltas normalizeLoop_length rawTimeDeltas_def)

lemma maxArguments_ge: "4 \<le> maxArguments argLimit"
  using Rep_argumentLimit [of argLimit] by (simp add: maxArguments_def)

lemma maxArguments_Abs: "4 \<le> n \<Longrightarrow> maxArguments (Abs_argumentLimit n) = n"
  by (simp add: maxArguments_def Abs_argumentLimit_inverse)

lemma runningClock_length: "length (runningClock c ds) = length ds"
  by (induction ds arbitrary: c) simp_all

lemma runningClock_append:
  "runningClock c (as @ bs) = runningClock c as @ runningClock (clockAfter c as) bs"
  by (induction as arbitrary: c) (simp_all add: clockAfter_def)

lemma clockAfter_append: "clockAfter c (as @ bs) = clockAfter (clockAfter c as) bs"
  by (simp add: clockAfter_def runningClock_append)

lemma fold_mergeSample:
  "fold (mergeSample nm off p) is (m, c) =
     (m\<lparr>CPUProfile.samples :=
          CPUProfile.samples m @ map (\<lambda>i. mappedNodeId nm (CPUProfile.samples p ! i)) is,
        CPUProfile.timeDeltas :=
          CPUProfile.timeDeltas m @
            runningClock c
              (map (\<lambda>i. toDouble (off + originalDeltaAt (CPUProfile.timeDeltas p) i)) is)\<rparr>,
      clockAfter c
        (map (\<lambda>i. toDouble (off + originalDeltaAt (CPUProfile.timeDeltas p) i)) is))"
proof (induction "is" arbitrary: m c)
  case Nil
  then show ?case by (simp add: clockAfter_def)
next
  case (Cons i "is")
  show ?case
    by (simp add: Cons.IH mergeSample_def [of nm off p i] Let_def clockAfter_def)
qed

lemma map_nth_upt: "map (\<lambda>i. f (xs ! i)) [0 ..< length xs] = map f xs"
  by (rule nth_equalityI) simp_all

lemma mergeOne_eq:
  "mergeOne p (m, off, c) =
     (m\<lparr>CPUProfile.nodes := CPUProfile.nodes m @
           map (\<lambda>n. n\<lparr>node_id := off + node_id n\<rparr>) (CPUProfile.nodes p),
        CPUProfile.samples := CPUProfile.samples m @ remappedSamples off p,
        CPUProfile.timeDeltas := CPUProfile.timeDeltas m @
           runningClock c (adjustedDeltas (CPUProfile.startTime m) p)\<rparr>,
      off + length (CPUProfile.nodes p),
      clockAfter c (adjustedDeltas (CPUProfile.startTime m) p))"
  by (simp add: mergeOne_def Let_def fold_mergeSample remappedSamples_def adjustedDeltas_def
      map_nth_upt)

lemma fold_mergeOne_times:
  "CPUProfile.startTime (fst (fold mergeOne ps (m, off, c))) = CPUProfile.startTime m"
  "CPUProfile.endTime (fst (fold mergeOne ps (m, off, c))) = CPUProfile.endTime m"
  by (induction ps arbitrary: m off c) (simp_all add: mergeOne_eq)

lemma fold_mergeOne_timeDeltas:
  "CPUProfile.timeDeltas (fst (fold mergeOne ps (m, off, c))) =
     CPUProfile.timeDeltas m @
       runningClock c (concat (map (adjustedDeltas (CPUProfile.startTime m)) ps))"
  by (induction ps arbitrary: m off c) (simp_all add: mergeOne_eq runningClock_append)

lemma fold_mergeOne_samples_length:
  "length (CPUProfile.samples (fst (fold mergeOne ps (m, off, c)))) =
     length (CPUProfile.samples m) + sum_list (map (\<lambda>p. length (CPUProfile.samples p)) ps)"
  by (induction ps arbitrary: m off c) (simp_all add: mergeOne_eq remappedSamples_def)

lemma adjustedDeltas_length: "length (adjustedDeltas s p) = length (CPUProfile.samples p)"
  by (simp add: adjustedDeltas_def)

lemma mergeProfiles_Cons:
  "length (p # ps) \<le> maxArguments argLimit \<Longrightarrow>
   mergeProfiles argLimit (p # ps) =
     Inr (fst (fold mergeOne (sort_key CPUProfile.startTime (p # ps))
       (\<lparr>CPUProfile.nodes = [], CPUProfile.samples = [], CPUProfile.timeDeltas = [],
         CPUProfile.startTime = mathMin (CPUProfile.startTime p) (map CPUProfile.startTime ps),
         CPUProfile.endTime = mathMax (CPUProfile.endTime p) (map CPUProfile.endTime ps)\<rparr>,
        0, 0)))"
  by (simp add: mergeProfiles_def Let_def)

lemma mergeProfiles_RangeError:
  assumes "maxArguments argLimit < length ps"
  shows "mergeProfiles argLimit ps = Inl RangeError"
proof (cases ps)
  case Nil
  with assms show ?thesis by simp
next
  case (Cons p rest)
  with assms show ?thesis
    by (simp add: mergeProfiles_def)
qed

lemma mergeProfiles_errors:
  "mergeProfiles argLimit ps = Inl e \<longleftrightarrow>
     (ps = [] \<and> e = Error ''Cannot merge empty profiles'') \<or>
     (maxArguments argLimit < length ps \<and> e = RangeError)"
proof (cases ps)
  case Nil
  then show ?thesis
    by (auto simp: mergeProfiles_def)
next
  case (Cons p rest)
  then show ?thesis
    by (auto simp: mergeProfiles_def Let_def)
qed

lemma mathMin_Min: "mathMin x xs = Min (set (x # xs))"
  unfolding mathMin_def by (rule Min.set_eq_fold [symmetric])

lemma mathMax_Max: "mathMax x xs = Max (set (x # xs))"
  unfolding mathMax_def by (rule Max.set_eq_fold [symmetric])

lemma sum_list_sort_key:
  "sum_list (map h (sort_key k xs)) = sum_list (map (h :: 'a \<Rightarrow> nat) xs)"
proof -
  have "mset (map h (sort_key k xs)) = mset (map h xs)"
    by simp
  then show ?thesis
    by (metis sum_mset_sum_list)
qed

lemma mergeProfiles_within_limit:
  assumes "ps0 \<noteq> []" and "length ps0 \<le> maxArguments argLimit"
  shows "\<exists>m. mergeProfiles argLimit ps0 = Inr m \<and>
       CPUProfile.startTime m = Min (set (map CPUProfile.startTime ps0)) \<and>
       CPUProfile.endTime m = Max (set (map CPUProfile.endTime ps0)) \<and>
       CPUProfile.timeDeltas m =
         runningClock 0
           (concat (map (adjustedDeltas (CPUProfile.startTime m))
                      (sort_key CPUProfile.startTime ps0)))"
proof -
  from assms(1) obtain p ps where ps: "ps0 = p # ps"
    by (cases ps0) auto
  from assms(2) have len: "length (p # ps) \<le> maxArguments argLimit"
    by (simp add: ps)
  show ?thesis
    unfolding ps mergeProfiles_Cons [OF len]
    by (simp only: fold_mergeOne_times fold_mergeOne_timeDeltas
        mathMin_Min mathMax_Max CPUProfile.simps list.map append_Nil simp_thms ex_simps
        sum.inject)
qed

lemma toDouble_0: "toDouble 0 = 0"
  by (simp add: toDouble_def)

lemma toDouble_2_53: "toDouble 9007199254740992 = 9007199254740992"
  by code_simp

lemma toDouble_2_53_plus_1: "toDouble 9007199254740993 = 9007199254740992"
  by code_simp

text \<open>
  C2 (the merge clock at \<open>2^53\<close>). One profile with three samples and the time deltas
  \<open>2^53, 0, 0\<close>: the first adjusted delta \<open>2^53\<close> exceeds the clock and is appended; the two
  others do not, and \<open>cumulativeTime += 1\<close> gives \<open>2^53\<close> again, since \<open>2^53 + 1\<close> is not a
  double and rounds to \<open>2^53\<close>. The merged time deltas are \<open>2^53, 2^53, 2^53\<close>: not strictly
  increasing.
\<close>

theorem mergeProfiles_clock_stalls:
  "mergeProfiles argLimit
     [\<lparr>CPUProfile.nodes = [], CPUProfile.samples = [0, 0, 0],
       CPUProfile.timeDeltas = [9007199254740992, 0, 0],
       CPUProfile.startTime = 0, CPUProfile.endTime = 1\<rparr>] =
     Inr \<lparr>CPUProfile.nodes = [], CPUProfile.samples = [0, 0, 0],
          CPUProfile.timeDeltas = [9007199254740992, 9007199254740992, 9007199254740992],
          CPUProfile.startTime = 0, CPUProfile.endTime = 1\<rparr> \<and>
   \<not> sorted_wrt (<) [9007199254740992, 9007199254740992, 9007199254740992 :: real]"
proof -
  let ?P = "\<lparr>CPUProfile.nodes = [], CPUProfile.samples = [0, 0, 0],
             CPUProfile.timeDeltas = [9007199254740992, 0, 0],
             CPUProfile.startTime = 0, CPUProfile.endTime = 1\<rparr>"
  have len: "length (?P # []) \<le> maxArguments argLimit"
    using maxArguments_ge [of argLimit] by simp
  have adj: "adjustedDeltas 0 ?P = [9007199254740992, 0, 0]"
    by (simp add: adjustedDeltas_def originalDeltaAt_def toDouble_0 toDouble_2_53
        upt_rec [of 0] upt_rec [of 1] upt_rec [of 2] upt_rec [of "Suc 0"]
        upt_rec [of "Suc (Suc 0)"])
  have rs: "remappedSamples 0 ?P = [0, 0, 0]"
    by (simp add: remappedSamples_def mappedNodeId_def buildNodeMapping_def)
  show ?thesis
    unfolding mergeProfiles_Cons [OF len]
    by (simp add: mergeOne_eq mathMin_def mathMax_def adj rs toDouble_2_53_plus_1)
qed

lemma buildNodeMapping_fold:
  "fold (\<lambda>n m. m(node_id n \<mapsto> off + node_id n)) ns m0 x =
     (if x \<in> node_id ` set ns then Some (off + x) else m0 x)"
  by (induction ns arbitrary: m0) auto

lemma buildNodeMapping_eq:
  "buildNodeMapping off ns x = (if x \<in> node_id ` set ns then Some (off + x) else None)"
  by (simp add: buildNodeMapping_def buildNodeMapping_fold)

lemma remappedSamples_eq:
  "remappedSamples off p =
     map (\<lambda>x. if x \<in> node_id ` set (CPUProfile.nodes p) then off + x else x)
       (CPUProfile.samples p)"
  by (auto simp: remappedSamples_def mappedNodeId_def buildNodeMapping_eq)

text \<open>
  C3. \<open>mergeProfiles [P1, P2]\<close> returns a profile whose samples are the remapped samples of
  the profile that starts first (\<open>P1\<close> when the start times are equal) followed by the remapped
  samples of the other; their number is \<open>|P1.samples| + |P2.samples|\<close>. Remapping acts on
  each sample separately and keeps the order: a sample that names a node of its profile gets
  the node id offset added, any other sample is kept.
\<close>

theorem mergeProfiles_two_sources:
  "\<exists>m. mergeProfiles argLimit [P1, P2] = Inr m \<and>
       length (CPUProfile.samples m) =
         length (CPUProfile.samples P1) + length (CPUProfile.samples P2) \<and>
       CPUProfile.samples m =
         (if CPUProfile.startTime P1 \<le> CPUProfile.startTime P2
          then remappedSamples 0 P1 @ remappedSamples (length (CPUProfile.nodes P1)) P2
          else remappedSamples 0 P2 @ remappedSamples (length (CPUProfile.nodes P2)) P1) \<and>
       (\<forall>off p. remappedSamples off p =
          map (\<lambda>x. if x \<in> node_id ` set (CPUProfile.nodes p) then off + x else x)
            (CPUProfile.samples p))"
proof -
  have len: "length (P1 # [P2]) \<le> maxArguments argLimit"
    using maxArguments_ge [of argLimit] by simp
  show ?thesis
    using remappedSamples_eq
    by (simp add: mergeProfiles_Cons [OF len] mergeOne_eq remappedSamples_def)
qed

theorem mergeProfiles_two_sources_witness:
  "\<exists>m. mergeProfiles (Abs_argumentLimit 65536)
         [\<lparr>CPUProfile.nodes = [], CPUProfile.samples = [0, 0],
            CPUProfile.timeDeltas = [1000, 500],
            CPUProfile.startTime = 5, CPUProfile.endTime = 9\<rparr>,
          \<lparr>CPUProfile.nodes = [], CPUProfile.samples = [1], CPUProfile.timeDeltas = [0],
            CPUProfile.startTime = 3, CPUProfile.endTime = 8\<rparr>] = Inr m \<and>
       CPUProfile.samples m = [1, 0, 0]"
  using mergeProfiles_two_sources
    [of "Abs_argumentLimit 65536"
        "\<lparr>CPUProfile.nodes = [], CPUProfile.samples = [0, 0],
            CPUProfile.timeDeltas = [1000, 500],
            CPUProfile.startTime = 5, CPUProfile.endTime = 9\<rparr>"
        "\<lparr>CPUProfile.nodes = [], CPUProfile.samples = [1], CPUProfile.timeDeltas = [0],
            CPUProfile.startTime = 3, CPUProfile.endTime = 8\<rparr>"]
  by auto

lemma mergeProfiles_Cons_returns:
  "length (p # ps) \<le> maxArguments argLimit \<Longrightarrow> \<exists>m. mergeProfiles argLimit (p # ps) = Inr m"
  by (simp add: mergeProfiles_Cons)

text \<open>
  C6 (a list longer than the engine accepts as arguments). With an engine that accepts
  125000 arguments, \<open>mergeProfiles\<close> on a list of 150000 profiles raises \<open>RangeError\<close> in
  \<open>Math.min(...profiles.map(..))\<close>: the list is not empty and the call does not return.
\<close>

theorem mergeProfiles_long_list_RangeError:
  "mergeProfiles (Abs_argumentLimit 125000) (replicate 150000 (getEmptyProfile 0 1)) =
     Inl RangeError \<and>
   replicate 150000 (getEmptyProfile 0 1) \<noteq> []"
proof -
  have "maxArguments (Abs_argumentLimit 125000) < length (replicate 150000 (getEmptyProfile 0 1))"
    by (simp add: maxArguments_Abs)
  then have "mergeProfiles (Abs_argumentLimit 125000) (replicate 150000 (getEmptyProfile 0 1)) =
               Inl RangeError"
    by (rule mergeProfiles_RangeError)
  moreover have "replicate 150000 (getEmptyProfile 0 1) \<noteq> []"
    by (simp add: replicate_empty)
  ultimately show ?thesis
    by blast
qed

lemma mergeProfiles_lengths:
  assumes "mergeProfiles argLimit ps = Inr m"
  shows "length (CPUProfile.samples m) = sum_list (map (\<lambda>p. length (CPUProfile.samples p)) ps)"
    and "length (CPUProfile.timeDeltas m) = sum_list (map (\<lambda>p. length (CPUProfile.samples p)) ps)"
proof -
  from assms obtain p rest where ps: "ps = p # rest"
    by (cases ps) (auto simp: mergeProfiles_def)
  from assms have len: "length (p # rest) \<le> maxArguments argLimit"
    unfolding ps by (simp add: mergeProfiles_def split: if_splits)
  have l: "length (concat (map (adjustedDeltas s) qs)) =
             sum_list (map (\<lambda>p. length (CPUProfile.samples p)) qs)" for s qs
    by (induction qs) (simp_all add: adjustedDeltas_length)
  from assms have m: "m = fst (fold mergeOne (sort_key CPUProfile.startTime (p # rest))
       (\<lparr>CPUProfile.nodes = [], CPUProfile.samples = [], CPUProfile.timeDeltas = [],
         CPUProfile.startTime = mathMin (CPUProfile.startTime p) (map CPUProfile.startTime rest),
         CPUProfile.endTime = mathMax (CPUProfile.endTime p) (map CPUProfile.endTime rest)\<rparr>,
        0, 0))"
    unfolding ps mergeProfiles_Cons [OF len] by simp
  show "length (CPUProfile.samples m) = sum_list (map (\<lambda>p. length (CPUProfile.samples p)) ps)"
    unfolding m ps
    by (simp del: sort_key_simps add: fold_mergeOne_samples_length sum_list_sort_key)
  show "length (CPUProfile.timeDeltas m) = sum_list (map (\<lambda>p. length (CPUProfile.samples p)) ps)"
    unfolding m ps
    by (simp del: sort_key_simps
        add: fold_mergeOne_timeDeltas runningClock_length l sum_list_sort_key)
qed

text \<open>
  C9. Every returned profile has as many samples as time deltas. \<open>generateFromTrace\<close>: one of
  each per trace sample whose stack and frame id resolve, so a skipped sample adds to neither
  array. \<open>generateFromSingleWorkerData\<close>: one of each per record. \<open>mergeProfiles\<close>: one of
  each per sample of the inputs.
\<close>

theorem samples_timeDeltas_aligned:
  "(generateFromTrace mf g0 trace st et tn = Inr p \<longrightarrow>
      length (CPUProfile.samples p) = resolvedSampleCount trace \<and>
      length (CPUProfile.timeDeltas p) = resolvedSampleCount trace) \<and>
   length (CPUProfile.samples (fst (generateFromSingleWorkerData g0 workerData st et wid))) =
     length workerData \<and>
   length (CPUProfile.timeDeltas (fst (generateFromSingleWorkerData g0 workerData st et wid))) =
     length workerData \<and>
   (mergeProfiles argLimit ps = Inr m \<longrightarrow>
      length (CPUProfile.samples m) = sum_list (map (\<lambda>q. length (CPUProfile.samples q)) ps) \<and>
      length (CPUProfile.timeDeltas m) = sum_list (map (\<lambda>q. length (CPUProfile.samples q)) ps))"
  by (simp add: generateFromTrace_lengths mergeProfiles_lengths
      generateFromSingleWorkerData_samples_length generateFromSingleWorkerData_timeDeltas_length)

theorem samples_timeDeltas_aligned_witness:
  "(\<exists>p. generateFromTrace Map.empty newCPUProfileGenerator (Some skewedTrace) 0 30
           ''Main Thread'' = Inr p \<and>
        length (CPUProfile.samples p) = 2 \<and> length (CPUProfile.timeDeltas p) = 2) \<and>
   (\<exists>m. mergeProfiles (Abs_argumentLimit 65536)
          [\<lparr>CPUProfile.nodes = [], CPUProfile.samples = [0, 0],
             CPUProfile.timeDeltas = [1000],
             CPUProfile.startTime = 5, CPUProfile.endTime = 9\<rparr>,
           \<lparr>CPUProfile.nodes = [], CPUProfile.samples = [1], CPUProfile.timeDeltas = [0, 7],
             CPUProfile.startTime = 3, CPUProfile.endTime = 8\<rparr>] = Inr m \<and>
        length (CPUProfile.samples m) = 3 \<and> length (CPUProfile.timeDeltas m) = 3)"
proof -
  let ?smps = "[\<lparr>timestamp = 20, stackId = Some 0\<rparr>, \<lparr>timestamp = 10, stackId = Some 0\<rparr>,
                \<lparr>timestamp = 15, stackId = None\<rparr>]"
  let ?sts = "[\<lparr>frameId = Some 0, parentId = None\<rparr>]"
  let ?ps = "[\<lparr>CPUProfile.nodes = [], CPUProfile.samples = [0, 0],
                CPUProfile.timeDeltas = [1000],
                CPUProfile.startTime = 5, CPUProfile.endTime = 9\<rparr>,
              \<lparr>CPUProfile.nodes = [], CPUProfile.samples = [1], CPUProfile.timeDeltas = [0, 7],
                CPUProfile.startTime = 3, CPUProfile.endTime = 8\<rparr>]"
  have smps: "ProfilerTrace.samples skewedTrace = Some ?smps"
    and sts: "stacks skewedTrace = Some ?sts"
    by (simp_all add: skewedTrace_def)
  have "\<forall>s \<in> set ?smps. \<forall>fid. sampleFrameId ?sts s = Some fid \<longrightarrow>
          fid < length (case frames skewedTrace of None \<Rightarrow> [] | Some fs \<Rightarrow> fs)"
    by (simp add: sampleFrameId_def skewedTrace_def)
  from generateFromTrace_total [OF smps sts this] obtain p where
    p: "generateFromTrace Map.empty newCPUProfileGenerator (Some skewedTrace) 0 30 ''Main Thread''
          = Inr p"
    by blast
  have cnt: "resolvedSampleCount (Some skewedTrace) = 2"
    by (simp add: resolvedSampleCount_def resolvedSamples_def sampleFrameId_def skewedTrace_def)
  let ?P1 = "\<lparr>CPUProfile.nodes = [], CPUProfile.samples = [0, 0],
                CPUProfile.timeDeltas = [1000],
                CPUProfile.startTime = 5, CPUProfile.endTime = 9\<rparr>"
  let ?P2 = "\<lparr>CPUProfile.nodes = [], CPUProfile.samples = [1], CPUProfile.timeDeltas = [0, 7],
                CPUProfile.startTime = 3, CPUProfile.endTime = 8\<rparr>"
  have len: "length (?P1 # [?P2]) \<le> maxArguments (Abs_argumentLimit 65536)"
    by (simp add: maxArguments_Abs)
  from mergeProfiles_Cons_returns [OF len]
  obtain m where m: "mergeProfiles (Abs_argumentLimit 65536) ?ps = Inr m"
    by blast
  note main = samples_timeDeltas_aligned [of Map.empty newCPUProfileGenerator "Some skewedTrace"
      0 30 "''Main Thread''" p "[]" "''w''" "Abs_argumentLimit 65536" ?ps m]
  from main p cnt have "length (CPUProfile.samples p) = 2 \<and> length (CPUProfile.timeDeltas p) = 2"
    by simp
  moreover from main m
  have "length (CPUProfile.samples m) = 3 \<and> length (CPUProfile.timeDeltas m) = 3"
    by simp
  ultimately show ?thesis
    using p m by blast
qed

subsection \<open>The orchestrator\<close>

text \<open>
  C8. With no trace (the profiler returned null) and no worker performance data,
  \<open>generateProfile\<close> returns null and does not throw.
\<close>

theorem generateProfile_nothing_to_profile:
  "workerPerformanceData this = [] \<Longrightarrow> generateProfile argLimit mf this None et = Inr None"
  by (simp add: generateProfile_def)

theorem generateProfile_nothing_to_profile_witness:
  "workerPerformanceData
     \<lparr>generator = newCPUProfileGenerator, PerformanceMonitor.startTime = 3,
      workerPerformanceData = [], mainThreadInstrumentationData = []\<rparr> = [] \<and>
   generateProfile (Abs_argumentLimit 65536) Map.empty
     \<lparr>generator = newCPUProfileGenerator, PerformanceMonitor.startTime = 3,
      workerPerformanceData = [], mainThreadInstrumentationData = []\<rparr> None 10 = Inr None"
proof -
  have h: "workerPerformanceData
     \<lparr>generator = newCPUProfileGenerator, PerformanceMonitor.startTime = 3,
      workerPerformanceData = [], mainThreadInstrumentationData = []\<rparr> = []"
    by simp
  from h generateProfile_nothing_to_profile [OF h, of "Abs_argumentLimit 65536" Map.empty 10]
  show ?thesis
    by simp
qed

subsection \<open>The evented path of the exporter\<close>

lemma map_of_mapSet: "map_of (mapSet k v m) k' = (if k' = k then Some v else map_of m k')"
  by (induction m) auto

lemma pushEvents_eq: "pushEvents a d fid el = el @ openCloseEvents a d fid"
  by (auto simp: pushEvents_def openCloseEvents_def Let_def)

lemma workerDataStep_spec:
  assumes "workerDataStep wid tp tm prof a d (fm, frs, fn, el) = (fm', frs', fn', el')"
  shows "\<exists>fid. map_of fn' (WorkerPerformanceData.functionName d) = Some fid \<and>
               el' = el @ openCloseEvents a d fid"
    and "\<And>k v. map_of fn k = Some v \<Longrightarrow> map_of fn' k = Some v"
proof -
  let ?f = "WorkerPerformanceData.functionName d"
  let ?via = "if map_of fn ?f = None \<and> length (CPUProfile.samples prof) > 0
              then findViaSamples tp tm (CPUProfile.nodes prof) ?f (CPUProfile.samples prof)
              else None"
  have both: "(\<exists>fid. map_of fn' ?f = Some fid \<and> el' = el @ openCloseEvents a d fid) \<and>
              (\<forall>k v. map_of fn k = Some v \<longrightarrow> map_of fn' k = Some v)"
  proof (cases "map_of fn ?f")
    case (Some v)
    with assms have "fn' = fn" "el' = pushEvents a d v el"
      by (simp_all add: workerDataStep_def Let_def)
    with Some show ?thesis
      by (simp add: pushEvents_eq)
  next
    case None
    show ?thesis
    proof (cases ?via)
      case via: None
      with None assms have "fn' = mapSet ?f (length frs) fn"
        "el' = pushEvents a d (length frs) el"
        by (simp_all add: workerDataStep_def Let_def split: if_splits)
      with None show ?thesis
        by (auto simp: pushEvents_eq map_of_mapSet)
    next
      case via: (Some v)
      with None assms have "fn' = mapSet ?f v fn" "el' = pushEvents a d v el"
        by (simp_all add: workerDataStep_def Let_def split: if_splits)
      with None show ?thesis
        by (auto simp: pushEvents_eq map_of_mapSet)
    qed
  qed
  from both show "\<exists>fid. map_of fn' ?f = Some fid \<and> el' = el @ openCloseEvents a d fid"
    by blast
  from both show "\<And>k v. map_of fn k = Some v \<Longrightarrow> map_of fn' k = Some v"
    by blast
qed

lemma fold_workerDataStep:
  assumes "fold (workerDataStep wid tp tm prof a) ds (fm, frs, fn, el) = (fm', frs', fn', el')"
  shows "(\<forall>k v. map_of fn k = Some v \<longrightarrow> map_of fn' k = Some v) \<and>
         (\<forall>d \<in> set ds. map_of fn' (WorkerPerformanceData.functionName d) \<noteq> None) \<and>
         el' = el @ recordEvents a (\<lambda>f. the (map_of fn' f)) ds"
  using assms
proof (induction ds arbitrary: fm frs fn el)
  case Nil
  then show ?case by (simp add: recordEvents_def)
next
  case (Cons d ds)
  obtain fm1 frs1 fn1 el1 where
    s1: "workerDataStep wid tp tm prof a d (fm, frs, fn, el) = (fm1, frs1, fn1, el1)"
    by (metis prod_cases4)
  with Cons.prems have
    rest: "fold (workerDataStep wid tp tm prof a) ds (fm1, frs1, fn1, el1) = (fm', frs', fn', el')"
    by simp
  from workerDataStep_spec(1) [OF s1] obtain fid where
    fid: "map_of fn1 (WorkerPerformanceData.functionName d) = Some fid"
      "el1 = el @ openCloseEvents a d fid"
    by blast
  note mono1 = workerDataStep_spec(2) [OF s1]
  from Cons.IH [OF rest] have
    mono: "\<And>k v. map_of fn1 k = Some v \<Longrightarrow> map_of fn' k = Some v"
    and dom: "\<forall>d \<in> set ds. map_of fn' (WorkerPerformanceData.functionName d) \<noteq> None"
    and el': "el' = el1 @ recordEvents a (\<lambda>f. the (map_of fn' f)) ds"
    by blast+
  from mono [OF fid(1)] have here: "map_of fn' (WorkerPerformanceData.functionName d) = Some fid"
    .
  have "\<forall>k v. map_of fn k = Some v \<longrightarrow> map_of fn' k = Some v"
    using mono1 mono by blast
  moreover have "\<forall>d' \<in> set (d # ds). map_of fn' (WorkerPerformanceData.functionName d') \<noteq> None"
    using here dom by simp
  moreover have "el' = el @ recordEvents a (\<lambda>f. the (map_of fn' f)) (d # ds)"
    using el' fid(2) here by (simp add: recordEvents_def)
  ultimately show ?case
    by blast
qed

lemma openCloseEvents_nonneg: "e \<in> set (openCloseEvents a d fid) \<Longrightarrow> 0 \<le> event_at e"
  by (auto simp: openCloseEvents_def Let_def split: if_splits)

lemma recordEvents_nonneg: "e \<in> set (recordEvents a resolve ds) \<Longrightarrow> 0 \<le> event_at e"
  by (auto simp: recordEvents_def dest: openCloseEvents_nonneg)

lemma openCloseEvents_length:
  "length (openCloseEvents a d fid) = (if validTimes a d then 2 else 0)"
  by (auto simp: openCloseEvents_def validTimes_def Let_def)

lemma recordEvents_length: "length (recordEvents a resolve ds) = eventCount a ds"
  by (induction ds) (simp_all add: recordEvents_def eventCount_def openCloseEvents_length)

lemma eventedEvents_spec:
  "\<exists>fm' frs' resolve.
     eventedEvents argLimit wid tn tm prof a workerData (fm, frs) =
       (if maxArguments argLimit < eventCount a workerData then Inl RangeError
        else Inr (fm', frs', sort_key event_at (recordEvents a resolve workerData)))"
proof -
  let ?tp = "''['' @ tn @ ''] ''"
  let ?fn0 = "functionNamesFromThreadMap ?tp tm (CPUProfile.nodes prof)"
  let ?fn1 = "if length ?fn0 = 0
              then functionNamesFromFrameMap ?tp fm (CPUProfile.nodes prof) else ?fn0"
  obtain fm2 frs2 fn2 el where
    f: "fold (workerDataStep wid ?tp tm prof a) workerData (fm, frs, ?fn1, []) =
          (fm2, frs2, fn2, el)"
    by (metis prod_cases4)
  from fold_workerDataStep [OF f] have
    el: "el = recordEvents a (\<lambda>f. the (map_of fn2 f)) workerData"
    by simp
  have "eventedEvents argLimit wid tn tm prof a workerData (fm, frs) =
          (if maxArguments argLimit < length el then Inl RangeError
           else Inr (fm2, frs2, sort_key event_at el))"
    unfolding eventedEvents_def Let_def prod.case f
    by simp
  then show ?thesis
    unfolding el recordEvents_length
    by blast
qed

lemma workerProfileStep_evented:
  assumes "map_of groups wid = Some workerData"
  shows "\<exists>fm' frs' resolve.
           workerProfileStep argLimit (Some groups) a (wid, profile) (frameMap, frs, profs) =
             (if maxArguments argLimit < eventCount a workerData then Inl RangeError
              else Inr (fm', frs',
                        if eventCount a workerData = 0 then profs
                        else profs @ [eventedTrack wid
                               (sort_key event_at (recordEvents a resolve workerData))]))"
proof -
  let ?tn = "''web-worker-'' @ workerIndexOf wid"
  obtain tm fm1 frs1 where
    tm: "fold workerThreadMapStep (CPUProfile.nodes profile) (Map.empty, frameMap, frs) =
           (tm, fm1, frs1)"
    by (metis prod_cases3)
  from eventedEvents_spec [of argLimit wid ?tn tm profile a workerData fm1 frs1]
  obtain fm2 frs2 resolve where
    ev: "eventedEvents argLimit wid ?tn tm profile a workerData (fm1, frs1) =
           (if maxArguments argLimit < eventCount a workerData then Inl RangeError
            else Inr (fm2, frs2, sort_key event_at (recordEvents a resolve workerData)))"
    by blast
  let ?evs = "sort_key event_at (recordEvents a resolve workerData)"
  have len: "length ?evs = eventCount a workerData"
    by (simp add: recordEvents_length)
  show ?thesis
  proof (cases "maxArguments argLimit < eventCount a workerData")
    case True
    with ev have "workerProfileStep argLimit (Some groups) a (wid, profile)
                    (frameMap, frs, profs) = Inl RangeError"
      unfolding workerProfileStep_def Let_def prod.case tm option.case assms
      by simp
    with True show ?thesis
      by simp
  next
    case False
    with ev have ev': "eventedEvents argLimit wid ?tn tm profile a workerData (fm1, frs1) =
                         Inr (fm2, frs2, ?evs)"
      by simp
    show ?thesis
    proof (cases ?evs)
      case Nil
      with len have zero: "eventCount a workerData = 0"
        by simp
      have "workerProfileStep argLimit (Some groups) a (wid, profile)
                  (frameMap, frs, profs) = Inr (fm2, frs2, profs)"
        unfolding workerProfileStep_def Let_def prod.case tm option.case assms ev' sum.case Nil
        by simp
      with zero False show ?thesis
        by simp
    next
      case (Cons e es)
      with len have ne: "eventCount a workerData \<noteq> 0"
        by auto
      from Cons len False have fits: "\<not> maxArguments argLimit < length (e # es)"
        by simp
      have step: "workerProfileStep argLimit (Some groups) a (wid, profile)
                  (frameMap, frs, profs) =
               Inr (fm2, frs2,
                    profs @ [\<lparr>SpeedscopeProfile.type = evented, SpeedscopeProfile.name = ?tn,
                               unit = ''microseconds'',
                               startValue = mathMin (event_at e) (map event_at es),
                               endValue = mathMax (event_at e) (map event_at es),
                               SpeedscopeProfile.samples = None, weights = None,
                               events = Some (e # es)\<rparr>])"
        unfolding workerProfileStep_def Let_def prod.case tm option.case assms ev' sum.case Cons
        using fits by simp
      have "eventedTrack wid (e # es) =
                   \<lparr>SpeedscopeProfile.type = evented, SpeedscopeProfile.name = ?tn,
                     unit = ''microseconds'',
                     startValue = mathMin (event_at e) (map event_at es),
                     endValue = mathMax (event_at e) (map event_at es),
                     SpeedscopeProfile.samples = None, weights = None,
                     events = Some (e # es)\<rparr>"
        by (simp only: eventedTrack_def mathMin_Min mathMax_Max list.map)
      with step have "workerProfileStep argLimit (Some groups) a (wid, profile)
                  (frameMap, frs, profs) =
               Inr (fm2, frs2, profs @ [eventedTrack wid ?evs])"
        by (simp only: Cons)
      with False ne show ?thesis
        by (intro exI [of _ fm2] exI [of _ frs2] exI [of _ resolve]) simp
    qed
  qed
qed

lemma workerProfileStep_nonneg:
  assumes g: "map_of groups (fst entry) \<noteq> None"
    and inv: "\<forall>t \<in> set profs. \<forall>e \<in> set (eventsOf t). 0 \<le> event_at e"
    and step: "workerProfileStep argLimit (Some groups) a entry (fm, frs, profs) =
                 Inr (fm', frs', profs')"
  shows "\<forall>t \<in> set profs'. \<forall>e \<in> set (eventsOf t). 0 \<le> event_at e"
proof -
  obtain wid profile where entry: "entry = (wid, profile)"
    by (cases entry)
  from g entry obtain workerData where wd: "map_of groups wid = Some workerData"
    by auto
  from workerProfileStep_evented [OF wd, of argLimit a profile fm frs profs]
  obtain fm2 frs2 resolve where
    r: "workerProfileStep argLimit (Some groups) a (wid, profile) (fm, frs, profs) =
             (if maxArguments argLimit < eventCount a workerData then Inl RangeError
              else Inr (fm2, frs2,
                        if eventCount a workerData = 0 then profs
                        else profs @ [eventedTrack wid
                               (sort_key event_at (recordEvents a resolve workerData))]))"
    by blast
  from r step entry have
    profs': "profs' = (if eventCount a workerData = 0 then profs
                       else profs @ [eventedTrack wid
                               (sort_key event_at (recordEvents a resolve workerData))])"
    by (simp split: if_splits)
  have "\<forall>e \<in> set (eventsOf (eventedTrack wid
                  (sort_key event_at (recordEvents a resolve workerData)))). 0 \<le> event_at e"
    by (auto simp: eventsOf_def eventedTrack_def dest: recordEvents_nonneg)
  with inv show ?thesis
    unfolding profs' by simp
qed

lemma workerProfilesLoop_nonneg:
  assumes "\<forall>entry \<in> set wps. map_of groups (fst entry) \<noteq> None"
    and "\<forall>t \<in> set profs. \<forall>e \<in> set (eventsOf t). 0 \<le> event_at e"
    and "workerProfilesLoop argLimit (Some groups) a wps (fm, frs, profs) = Inr (fm', frs', profs')"
  shows "\<forall>t \<in> set profs'. \<forall>e \<in> set (eventsOf t). 0 \<le> event_at e"
  using assms
proof (induction wps arbitrary: fm frs profs)
  case Nil
  then show ?case by simp
next
  case (Cons w wps)
  from Cons.prems(3) obtain fm1 frs1 profs1 where
    s1: "workerProfileStep argLimit (Some groups) a w (fm, frs, profs) = Inr (fm1, frs1, profs1)"
    and rest: "workerProfilesLoop argLimit (Some groups) a wps (fm1, frs1, profs1) =
                 Inr (fm', frs', profs')"
    by (auto split: sum.splits)
  from Cons.prems(1) have "map_of groups (fst w) \<noteq> None"
    by simp
  from workerProfileStep_nonneg [OF this Cons.prems(2) s1]
  have "\<forall>t \<in> set profs1. \<forall>e \<in> set (eventsOf t). 0 \<le> event_at e" .
  with Cons.prems(1) rest show ?case
    by (intro Cons.IH [of profs1 fm1 frs1]) simp_all
qed

lemma mainThreadProfiles_events:
  "t \<in> set (mainThreadProfiles fm main base) \<Longrightarrow> eventsOf t = []"
  by (auto simp: mainThreadProfiles_def eventsOf_def emptySampledProfile_def Let_def
      split: option.splits if_splits prod.splits)

lemma eventsOf_validateProfile: "eventsOf (validateProfile t) = eventsOf t"
  by (simp add: validateProfile_def eventsOf_def Let_def split: option.split)

lemma eventsOf_emptySampledProfile: "eventsOf (emptySampledProfile v) = []"
  by (simp add: emptySampledProfile_def eventsOf_def)

lemma generateSpeedscopeFormat_no_negative_event:
  assumes all: "\<forall>entry \<in> set workerProfiles. map_of groups (fst entry) \<noteq> None"
    and ret: "generateSpeedscopeFormat argLimit main workerProfiles (Some groups) base = Inr out"
  shows "\<forall>t \<in> set (profiles out). \<forall>e \<in> set (eventsOf t). 0 \<le> event_at e"
proof -
  let ?a = "actualStartTimeOf (Some groups) base"
  let ?acc0 = "case main of None \<Rightarrow> ([], [], 0)
               | Some p \<Rightarrow> fold extractFrame (CPUProfile.nodes p) ([], [], 0)"
  obtain fm frs fid where
    ex: "fold (\<lambda>entry acc. fold extractFrame (CPUProfile.nodes (snd entry)) acc)
           workerProfiles ?acc0 = (fm, frs, fid)"
    by (metis prod_cases3)
  let ?profs0 = "mainThreadProfiles fm main base"
  from ret obtain fm' frs' profs1 where
    w: "workerProfilesLoop argLimit (Some groups) ?a workerProfiles (fm, frs, ?profs0) =
          Inr (fm', frs', profs1)"
    unfolding generateSpeedscopeFormat_def Let_def ex prod.case
    by (auto split: sum.splits)
  have "\<forall>t \<in> set ?profs0. \<forall>e \<in> set (eventsOf t). 0 \<le> event_at e"
    by (simp add: mainThreadProfiles_events)
  from workerProfilesLoop_nonneg [OF all this w]
  have p1: "\<forall>t \<in> set profs1. \<forall>e \<in> set (eventsOf t). 0 \<le> event_at e" .
  from ret have "profiles out =
          map validateProfile
            (let profs2 = (if main \<noteq> None \<and> length profs1 = 0
                           then profs1 @ [emptySampledProfile 1000] else profs1)
             in if length frs' = 0 \<and> length profs2 = 0
                then (case main of
                        None \<Rightarrow> profs2
                      | Some p \<Rightarrow>
                          profs2 @ [emptySampledProfile
                            (max ((CPUProfile.endTime p - CPUProfile.startTime p) * 1000) 1000)])
                else profs2)"
    unfolding generateSpeedscopeFormat_def Let_def ex prod.case w sum.case
    by auto
  with p1 show ?thesis
    by (auto simp: Let_def eventsOf_validateProfile eventsOf_emptySampledProfile
        split: if_splits option.splits)
qed

lemma actualStartTimeOf_le: "actualStartTimeOf workerGroups base \<le> base"
  by (simp add: actualStartTimeOf_def split: option.split)

lemma eventCount_replicate:
  "validTimes a d \<Longrightarrow> eventCount a (replicate n d) = 2 * n"
  by (simp add: eventCount_def)

text \<open>
  C5 (a worker with more events than the engine accepts as arguments). With an engine that
  accepts 125000 arguments and a worker with 70000 records, each with valid times (open at
  1000, close at 6000), the exporter has 140000 events to emit; \<open>events.push(...eventList)\<close>
  raises \<open>RangeError\<close> and \<open>generateSpeedscopeFormat\<close> returns nothing: no pair of the
  valid records is emitted.
\<close>

theorem generateSpeedscopeFormat_many_records_RangeError:
  "generateSpeedscopeFormat (Abs_argumentLimit 125000) None
     [(''w1'', fst (generateFromSingleWorkerData newCPUProfileGenerator
                      (replicate 70000 (perfData ''w1'' ''a'' 5 10)) 4 20 ''w1''))]
     (Some [(''w1'', replicate 70000 (perfData ''w1'' ''a'' 5 10))]) 4 = Inl RangeError \<and>
   actualStartTimeOf (Some [(''w1'', replicate 70000 (perfData ''w1'' ''a'' 5 10))]) 4 = 4 \<and>
   openCloseEvents 4 (perfData ''w1'' ''a'' 5 10) fid =
     [\<lparr>event_at = 1000, frame = fid, SpeedscopeEvent.type = OpenEvent\<rparr>,
      \<lparr>event_at = 6000, frame = fid, SpeedscopeEvent.type = CloseEvent\<rparr>]"
proof -
  let ?W = "replicate 70000 (perfData ''w1'' ''a'' 5 10)"
  let ?P = "fst (generateFromSingleWorkerData newCPUProfileGenerator ?W 4 20 ''w1'')"
  let ?groups = "[(''w1'', ?W)]"
  let ?a = "actualStartTimeOf (Some ?groups) 4"
  let ?d = "perfData ''w1'' ''a'' 5 10"
  have st: "WorkerPerformanceData.startTime ?d = 5"
    by (simp add: perfData_def)
  have step5: "minStartTimeStep ?d (Some 5) = Some 5"
    by (simp add: minStartTimeStep_def st)
  have fold_min: "(minStartTimeStep ?d ^^ n) (Some 5) = Some 5" for n
    by (induction n) (simp_all add: step5)
  have "?W = ?d # replicate 69999 ?d"
    by (simp add: replicate_Suc [symmetric] del: replicate_Suc)
  then have "fold minStartTimeStep ?W None = Some 5"
    by (simp add: fold_min minStartTimeStep_def [of ?d None] st)
  then have a: "?a = 4"
    by (simp add: actualStartTimeOf_def)
  have valid: "validTimes ?a (perfData ''w1'' ''a'' 5 10)"
    unfolding a by (simp add: validTimes_def perfData_def)
  have cnt: "maxArguments (Abs_argumentLimit 125000) < eventCount ?a ?W"
    by (simp add: eventCount_replicate [OF valid] maxArguments_Abs)
  have wd: "map_of ?groups ''w1'' = Some ?W"
    by simp
  have step: "workerProfileStep (Abs_argumentLimit 125000) (Some ?groups) ?a (''w1'', ?P) acc =
                Inl RangeError" for acc
  proof -
    obtain fm frs profs where acc: "acc = (fm, frs, profs)"
      by (cases acc)
    from workerProfileStep_evented [OF wd, of "Abs_argumentLimit 125000" ?a ?P fm frs profs] cnt
    show ?thesis
      unfolding acc by auto
  qed
  have "generateSpeedscopeFormat (Abs_argumentLimit 125000) None [(''w1'', ?P)] (Some ?groups) 4 =
          Inl RangeError"
    unfolding generateSpeedscopeFormat_def Let_def
    by (simp add: step split: prod.split)
  moreover have "openCloseEvents 4 (perfData ''w1'' ''a'' 5 10) fid =
     [\<lparr>event_at = 1000, frame = fid, SpeedscopeEvent.type = OpenEvent\<rparr>,
      \<lparr>event_at = 6000, frame = fid, SpeedscopeEvent.type = CloseEvent\<rparr>]"
    by (simp add: openCloseEvents_def perfData_def)
  ultimately show ?thesis
    using a by blast
qed

end
